theory Spec2Isabelle
  imports Main
begin

section \<open>Strings and values of the host language\<close>

text \<open>
  A JavaScript string is a sequence of UTF-16 code units; a code unit is modelled by its
  number. \<open>js\<close> embeds a literal of the theory. \<open>trim\<close> is \<open>String.prototype.trim\<close>:
  it drops the leading and trailing code units that ECMAScript calls WhiteSpace or
  LineTerminator. A string is truthy when it is not empty.
\<close>

type_synonym jsstring = "nat list"

definition js :: "string \<Rightarrow> jsstring" where
  "js s = map of_char s"

definition isWhiteSpace :: "nat \<Rightarrow> bool" where
  "isWhiteSpace c =
     (c = 9 \<or> c = 10 \<or> c = 11 \<or> c = 12 \<or> c = 13 \<or> c = 32 \<or> c = 160 \<or> c = 5760
      \<or> (8192 \<le> c \<and> c \<le> 8202) \<or> c = 8232 \<or> c = 8233 \<or> c = 8239 \<or> c = 8287
      \<or> c = 12288 \<or> c = 65279)"

definition trim :: "jsstring \<Rightarrow> jsstring" where
  "trim s = rev (dropWhile isWhiteSpace (rev (dropWhile isWhiteSpace s)))"

text \<open>
  \<open>toUpperCase c\<close> is \<open>String.prototype.toUpperCase\<close> on the string of the one code
  unit \<open>c\<close>: the full, locale-insensitive case mapping of the Unicode Character
  Database (here version 14.0), which can give several code units. \<open>upper_special\<close>
  lists the code units whose upper case is more than one code unit (as the sharp s,
  223, which gives SS); \<open>upper_ranges\<close> lists the others that change, as runs
  \<open>(first, last, step, upper case of first)\<close> of code units at the same distance from
  their upper case (as the letters a to z, then the letters 224 to 246 of Latin-1).
  Every other code unit, a lone surrogate included, is its own upper case.
  \<open>capitalize t\<close> is \<open>t.charAt(0).toUpperCase() + t.slice(1)\<close>.
\<close>

definition upper_special :: "(nat \<times> nat list) list" where
  "upper_special =
    [(223, [83, 83]), (329, [700, 78]), (496, [74, 780]), (912, [921, 776, 769]),
     (944, [933, 776, 769]), (1415, [1333, 1362]), (7830, [72, 817]), (7831, [84, 776]),
     (7832, [87, 778]), (7833, [89, 778]), (7834, [65, 702]), (8016, [933, 787]),
     (8018, [933, 787, 768]), (8020, [933, 787, 769]), (8022, [933, 787, 834]),
     (8064, [7944, 921]), (8065, [7945, 921]), (8066, [7946, 921]), (8067, [7947, 921]),
     (8068, [7948, 921]), (8069, [7949, 921]), (8070, [7950, 921]), (8071, [7951, 921]),
     (8072, [7944, 921]), (8073, [7945, 921]), (8074, [7946, 921]), (8075, [7947, 921]),
     (8076, [7948, 921]), (8077, [7949, 921]), (8078, [7950, 921]), (8079, [7951, 921]),
     (8080, [7976, 921]), (8081, [7977, 921]), (8082, [7978, 921]), (8083, [7979, 921]),
     (8084, [7980, 921]), (8085, [7981, 921]), (8086, [7982, 921]), (8087, [7983, 921]),
     (8088, [7976, 921]), (8089, [7977, 921]), (8090, [7978, 921]), (8091, [7979, 921]),
     (8092, [7980, 921]), (8093, [7981, 921]), (8094, [7982, 921]), (8095, [7983, 921]),
     (8096, [8040, 921]), (8097, [8041, 921]), (8098, [8042, 921]), (8099, [8043, 921]),
     (8100, [8044, 921]), (8101, [8045, 921]), (8102, [8046, 921]), (8103, [8047, 921]),
     (8104, [8040, 921]), (8105, [8041, 921]), (8106, [8042, 921]), (8107, [8043, 921]),
     (8108, [8044, 921]), (8109, [8045, 921]), (8110, [8046, 921]), (8111, [8047, 921]),
     (8114, [8122, 921]), (8115, [913, 921]), (8116, [902, 921]), (8118, [913, 834]),
     (8119, [913, 834, 921]), (8124, [913, 921]), (8130, [8138, 921]), (8131, [919, 921]),
     (8132, [905, 921]), (8134, [919, 834]), (8135, [919, 834, 921]), (8140, [919, 921]),
     (8146, [921, 776, 768]), (8147, [921, 776, 769]), (8150, [921, 834]),
     (8151, [921, 776, 834]), (8162, [933, 776, 768]), (8163, [933, 776, 769]),
     (8164, [929, 787]), (8166, [933, 834]), (8167, [933, 776, 834]), (8178, [8186, 921]),
     (8179, [937, 921]), (8180, [911, 921]), (8182, [937, 834]), (8183, [937, 834, 921]),
     (8188, [937, 921]), (64256, [70, 70]), (64257, [70, 73]), (64258, [70, 76]),
     (64259, [70, 70, 73]), (64260, [70, 70, 76]), (64261, [83, 84]), (64262, [83, 84]),
     (64275, [1348, 1350]), (64276, [1348, 1333]), (64277, [1348, 1339]),
     (64278, [1358, 1350]), (64279, [1348, 1341])]"

definition upper_ranges :: "(nat \<times> nat \<times> nat \<times> nat) list" where
  "upper_ranges =
    [(97, 122, 1, 65), (181, 181, 1, 924), (224, 246, 1, 192), (248, 254, 1, 216),
     (255, 255, 1, 376), (257, 303, 2, 256), (305, 305, 1, 73), (307, 311, 2, 306),
     (314, 328, 2, 313), (331, 375, 2, 330), (378, 382, 2, 377), (383, 383, 1, 83),
     (384, 384, 1, 579), (387, 389, 2, 386), (392, 392, 1, 391), (396, 396, 1, 395),
     (402, 402, 1, 401), (405, 405, 1, 502), (409, 409, 1, 408), (410, 410, 1, 573),
     (414, 414, 1, 544), (417, 421, 2, 416), (424, 424, 1, 423), (429, 429, 1, 428),
     (432, 432, 1, 431), (436, 438, 2, 435), (441, 441, 1, 440), (445, 445, 1, 444),
     (447, 447, 1, 503), (453, 453, 1, 452), (454, 454, 1, 452), (456, 456, 1, 455),
     (457, 457, 1, 455), (459, 459, 1, 458), (460, 460, 1, 458), (462, 476, 2, 461),
     (477, 477, 1, 398), (479, 495, 2, 478), (498, 498, 1, 497), (499, 499, 1, 497),
     (501, 501, 1, 500), (505, 543, 2, 504), (547, 563, 2, 546), (572, 572, 1, 571),
     (575, 576, 1, 11390), (578, 578, 1, 577), (583, 591, 2, 582), (592, 592, 1, 11375),
     (593, 593, 1, 11373), (594, 594, 1, 11376), (595, 595, 1, 385), (596, 596, 1, 390),
     (598, 599, 1, 393), (601, 601, 1, 399), (603, 603, 1, 400), (604, 604, 1, 42923),
     (608, 608, 1, 403), (609, 609, 1, 42924), (611, 611, 1, 404), (613, 613, 1, 42893),
     (614, 614, 1, 42922), (616, 616, 1, 407), (617, 617, 1, 406), (618, 618, 1, 42926),
     (619, 619, 1, 11362), (620, 620, 1, 42925), (623, 623, 1, 412), (625, 625, 1, 11374),
     (626, 626, 1, 413), (629, 629, 1, 415), (637, 637, 1, 11364), (640, 640, 1, 422),
     (642, 642, 1, 42949), (643, 643, 1, 425), (647, 647, 1, 42929), (648, 648, 1, 430),
     (649, 649, 1, 580), (650, 651, 1, 433), (652, 652, 1, 581), (658, 658, 1, 439),
     (669, 669, 1, 42930), (670, 670, 1, 42928), (837, 837, 1, 921), (881, 883, 2, 880),
     (887, 887, 1, 886), (891, 893, 1, 1021), (940, 940, 1, 902), (941, 943, 1, 904),
     (945, 961, 1, 913), (962, 962, 1, 931), (963, 971, 1, 931), (972, 972, 1, 908),
     (973, 974, 1, 910), (976, 976, 1, 914), (977, 977, 1, 920), (981, 981, 1, 934),
     (982, 982, 1, 928), (983, 983, 1, 975), (985, 1007, 2, 984), (1008, 1008, 1, 922),
     (1009, 1009, 1, 929), (1010, 1010, 1, 1017), (1011, 1011, 1, 895), (1013, 1013, 1, 917),
     (1016, 1016, 1, 1015), (1019, 1019, 1, 1018), (1072, 1103, 1, 1040),
     (1104, 1119, 1, 1024), (1121, 1153, 2, 1120), (1163, 1215, 2, 1162),
     (1218, 1230, 2, 1217), (1231, 1231, 1, 1216), (1233, 1327, 2, 1232),
     (1377, 1414, 1, 1329), (4304, 4346, 1, 7312), (4349, 4351, 1, 7357),
     (5112, 5117, 1, 5104), (7296, 7296, 1, 1042), (7297, 7297, 1, 1044),
     (7298, 7298, 1, 1054), (7299, 7300, 1, 1057), (7301, 7301, 1, 1058),
     (7302, 7302, 1, 1066), (7303, 7303, 1, 1122), (7304, 7304, 1, 42570),
     (7545, 7545, 1, 42877), (7549, 7549, 1, 11363), (7566, 7566, 1, 42950),
     (7681, 7829, 2, 7680), (7835, 7835, 1, 7776), (7841, 7935, 2, 7840),
     (7936, 7943, 1, 7944), (7952, 7957, 1, 7960), (7968, 7975, 1, 7976),
     (7984, 7991, 1, 7992), (8000, 8005, 1, 8008), (8017, 8023, 2, 8025),
     (8032, 8039, 1, 8040), (8048, 8049, 1, 8122), (8050, 8053, 1, 8136),
     (8054, 8055, 1, 8154), (8056, 8057, 1, 8184), (8058, 8059, 1, 8170),
     (8060, 8061, 1, 8186), (8112, 8113, 1, 8120), (8126, 8126, 1, 921), (8144, 8145, 1, 8152),
     (8160, 8161, 1, 8168), (8165, 8165, 1, 8172), (8526, 8526, 1, 8498),
     (8560, 8575, 1, 8544), (8580, 8580, 1, 8579), (9424, 9449, 1, 9398),
     (11312, 11359, 1, 11264), (11361, 11361, 1, 11360), (11365, 11365, 1, 570),
     (11366, 11366, 1, 574), (11368, 11372, 2, 11367), (11379, 11379, 1, 11378),
     (11382, 11382, 1, 11381), (11393, 11491, 2, 11392), (11500, 11502, 2, 11499),
     (11507, 11507, 1, 11506), (11520, 11557, 1, 4256), (11559, 11559, 1, 4295),
     (11565, 11565, 1, 4301), (42561, 42605, 2, 42560), (42625, 42651, 2, 42624),
     (42787, 42799, 2, 42786), (42803, 42863, 2, 42802), (42874, 42876, 2, 42873),
     (42879, 42887, 2, 42878), (42892, 42892, 1, 42891), (42897, 42899, 2, 42896),
     (42900, 42900, 1, 42948), (42903, 42921, 2, 42902), (42933, 42947, 2, 42932),
     (42952, 42954, 2, 42951), (42961, 42961, 1, 42960), (42967, 42969, 2, 42966),
     (42998, 42998, 1, 42997), (43859, 43859, 1, 42931), (43888, 43967, 1, 5024),
     (65345, 65370, 1, 65313)]"

definition toUpperCase :: "nat \<Rightarrow> jsstring" where
  "toUpperCase c =
     (case map_of upper_special c of
        Some s \<Rightarrow> s
      | None \<Rightarrow>
          (case find (\<lambda>(lo, hi, step, up). lo \<le> c \<and> c \<le> hi \<and> (c - lo) mod step = 0)
                  upper_ranges of
             Some (lo, hi, step, up) \<Rightarrow> [up + (c - lo)]
           | None \<Rightarrow> [c]))"

definition capitalize :: "jsstring \<Rightarrow> jsstring" where
  "capitalize t = (case t of [] \<Rightarrow> [] | c # cs \<Rightarrow> toUpperCase c @ cs)"

datatype jsval = JUndefined | JNull | JBool bool | JNum int | JStr jsstring

fun truthy :: "jsval \<Rightarrow> bool" where
  "truthy JUndefined = False"
| "truthy JNull = False"
| "truthy (JBool b) = b"
| "truthy (JNum n) = (n \<noteq> 0)"
| "truthy (JStr s) = (s \<noteq> [])"

text \<open>An object literal is a list of properties; reading a missing property gives undefined.\<close>

type_synonym jsobject = "(jsstring \<times> jsval) list"

definition get_prop :: "jsobject \<Rightarrow> jsstring \<Rightarrow> jsval" where
  "get_prop obj k = (case map_of obj k of None \<Rightarrow> JUndefined | Some v \<Rightarrow> v)"

section \<open>Data of the controller\<close>

datatype item = Item (item_id: jsstring) (title: jsstring)

datatype stats_snapshot = StatsSnapshot (total_users: int) (total_items: int)

text \<open>
  The body of a response (\<open>response.data\<close>), with the properties the controller reads;
  a property that is absent is \<open>None\<close>.
\<close>

record response_data =
  data_recommendations :: "item list option"
  data_algorithm :: "jsstring option"
  data_results :: "item list option"
  data_statistics :: "stats_snapshot option"
  data_arm :: "jsstring option"

datatype tab = RecommendationsTab | SearchTab

text \<open>The \<open>useState\<close> cells of \<open>App\<close>, under their names in the source.\<close>

record app_state =
  currentUser :: jsstring
  recommendations :: "item list"
  searchResults :: "item list"
  contentTypeFilter :: jsstring
  searchType :: jsstring
  loading :: bool
  searchLoading :: bool
  stats :: "stats_snapshot option"
  abTestInfo :: "response_data option"
  algorithm :: "jsstring option"
  error :: "jsstring option"
  selectedItem :: "item option"
  isModalOpen :: bool
  activeTab :: tab
  lastSearchQuery :: jsstring

definition initial_state :: app_state where
  "initial_state =
     \<lparr> currentUser = js ''demo_user_1'', recommendations = [], searchResults = [],
       contentTypeFilter = [], searchType = js ''simple'', loading = False,
       searchLoading = False, stats = None, abTestInfo = None, algorithm = Some [],
       error = None, selectedItem = None, isModalOpen = False,
       activeTab = RecommendationsTab, lastSearchQuery = [] \<rparr>"

record event_data =
  user_id :: jsstring
  ev_item_id :: jsstring
  ev_type :: jsstring
  dwell_seconds :: jsval
  ev_context :: jsobject

text \<open>
  A network call of the controller: the endpoint with its query parameters
  (\<open>URLSearchParams\<close>, in order) or its body.
\<close>

datatype request =
    GetRecommend "(jsstring \<times> jsstring) list"
  | GetSearch "(jsstring \<times> jsstring) list"
  | GetStats
  | GetAbArm jsstring
  | PostEvent event_data

datatype query_kind = Recommendations | Search | Stats | AbArm | Telemetry

fun kind_of :: "request \<Rightarrow> query_kind" where
  "kind_of (GetRecommend p) = Recommendations"
| "kind_of (GetSearch p) = Search"
| "kind_of GetStats = Stats"
| "kind_of (GetAbArm u) = AbArm"
| "kind_of (PostEvent e) = Telemetry"

text \<open>
  How a call ends: the promise rejects (network error or a status outside 2xx), or it
  resolves with a body; \<open>Replied None\<close> is a body that is null, on which reading a
  property throws.
\<close>

datatype outcome = Failed | Replied "response_data option"

section \<open>The page and the timers\<close>

record element =
  classList :: "jsstring list"
  textContent :: jsstring

datatype task = AnimateIn nat | AnimateOut nat | RemoveNode nat | PollStats

datatype timer = Timer (handle: nat) (due: nat) (period: "nat option") (task: task)

text \<open>
  The world the component runs in: its state cells (\<open>ui\<close>), every network call issued
  so far in order (\<open>requests\<close>) with the positions of the calls still awaiting their
  response (\<open>inflight\<close>), the console, the elements created so far (\<open>nodes\<close>, an element
  is named by its position) with the children of \<open>document.body\<close>, and a logical clock
  in milliseconds with the pending timers. \<open>stats_interval\<close> is the handle that the
  cleanup of the polling effect holds.
\<close>

record world =
  ui :: app_state
  mounted :: bool
  requests :: "request list"
  inflight :: "nat list"
  console :: "jsstring list"
  nodes :: "element list"
  body :: "nat list"
  now :: nat
  timers :: "timer list"
  next_handle :: nat
  stats_interval :: "nat option"

definition init_world :: world where
  "init_world =
     \<lparr> ui = initial_state, mounted = False, requests = [], inflight = [], console = [],
       nodes = [], body = [], now = 0, timers = [], next_handle = 0,
       stats_interval = None \<rparr>"

text \<open>A state setter: it changes the cell while the component is mounted, and nothing after.\<close>

definition set_ui :: "(app_state \<Rightarrow> app_state) \<Rightarrow> world \<Rightarrow> world" where
  "set_ui f w = (if mounted w then w\<lparr>ui := f (ui w)\<rparr> else w)"

definition issue :: "request \<Rightarrow> world \<Rightarrow> world" where
  "issue r w = w\<lparr>requests := requests w @ [r], inflight := inflight w @ [length (requests w)]\<rparr>"

definition console_log :: "jsstring \<Rightarrow> world \<Rightarrow> world" where
  "console_log m w = w\<lparr>console := console w @ [m]\<rparr>"

definition setTimeout :: "task \<Rightarrow> nat \<Rightarrow> world \<Rightarrow> world" where
  "setTimeout k delay w =
     w\<lparr>timers := timers w @ [Timer (next_handle w) (now w + delay) None k],
       next_handle := Suc (next_handle w)\<rparr>"

definition setInterval :: "task \<Rightarrow> nat \<Rightarrow> world \<Rightarrow> world" where
  "setInterval k delay w =
     w\<lparr>timers := timers w @ [Timer (next_handle w) (now w + delay) (Some delay) k],
       next_handle := Suc (next_handle w)\<rparr>"

definition clearInterval :: "nat \<Rightarrow> world \<Rightarrow> world" where
  "clearInterval h w = w\<lparr>timers := filter (\<lambda>t. handle t \<noteq> h) (timers w)\<rparr>"

section \<open>The fetch functions, up to their first await\<close>

text \<open>
  An async function runs synchronously up to its first \<open>await\<close>; the rest runs when the
  call settles (\<open>resume\<close> below). The state cells a function reads are those of the
  render it was created in, which are the committed cells when a handler starts; no
  function reads a cell that the same handler has set before.
\<close>

definition fetchRecommendations :: "world \<Rightarrow> world" where
  "fetchRecommendations w =
     (if trim (currentUser (ui w)) = [] then w
      else
        let w1 = set_ui (\<lambda>s. s\<lparr>loading := True\<rparr>) w;
            w2 = set_ui (\<lambda>s. s\<lparr>error := None\<rparr>) w1;
            params = [(js ''user_id'', currentUser (ui w)), (js ''n'', js ''20'')]
              @ (if contentTypeFilter (ui w) \<noteq> []
                 then [(js ''content_type'', contentTypeFilter (ui w))] else [])
        in issue (GetRecommend params) w2)"

definition handleSearch :: "jsstring \<Rightarrow> world \<Rightarrow> world" where
  "handleSearch query w =
     (if trim query = [] then w
      else
        let w1 = set_ui (\<lambda>s. s\<lparr>searchLoading := True\<rparr>) w;
            w2 = set_ui (\<lambda>s. s\<lparr>error := None\<rparr>) w1;
            w3 = set_ui (\<lambda>s. s\<lparr>lastSearchQuery := query\<rparr>) w2;
            w4 = set_ui (\<lambda>s. s\<lparr>activeTab := SearchTab\<rparr>) w3;
            params = [(js ''q'', query), (js ''search_type'', searchType (ui w)),
                      (js ''limit'', js ''20'')]
              @ (if currentUser (ui w) \<noteq> []
                 then [(js ''user_id'', currentUser (ui w))] else [])
              @ (if contentTypeFilter (ui w) \<noteq> []
                 then [(js ''content_type'', contentTypeFilter (ui w))] else [])
        in issue (GetSearch params) w4)"

definition fetchStats :: "world \<Rightarrow> world" where
  "fetchStats w = issue GetStats w"

definition fetchAbTestInfo :: "world \<Rightarrow> world" where
  "fetchAbTestInfo w =
     (if trim (currentUser (ui w)) = [] then w
      else issue (GetAbArm (currentUser (ui w))) w)"

definition logInteraction :: "jsstring \<Rightarrow> jsstring \<Rightarrow> jsobject \<Rightarrow> world \<Rightarrow> world" where
  "logInteraction itemId interactionType ctx w =
     (let eventData =
            \<lparr> user_id = currentUser (ui w), ev_item_id = itemId, ev_type = interactionType,
              dwell_seconds =
                (if truthy (get_prop ctx (js ''view_duration''))
                 then get_prop ctx (js ''view_duration'') else JNum 0),
              ev_context = ctx \<rparr>
      in issue (PostEvent eventData) w)"

section \<open>Notifications\<close>

definition notification_element :: "jsstring \<Rightarrow> jsstring \<Rightarrow> element" where
  "notification_element message type =
     (let bgColor = (if type = js ''success'' then js ''bg-green-500'' else js ''bg-red-500'')
      in \<lparr> classList =
             [js ''fixed'', js ''top-4'', js ''right-4'', bgColor, js ''text-white'',
              js ''px-6'', js ''py-3'', js ''rounded-lg'', js ''shadow-lg'', js ''z-50'',
              js ''transform'', js ''translate-x-full'', js ''transition-transform'',
              js ''duration-300''],
           textContent = message \<rparr>)"

definition showNotification :: "jsstring \<Rightarrow> jsstring \<Rightarrow> world \<Rightarrow> world" where
  "showNotification message type w =
     (let notification = length (nodes w);
          w1 = w\<lparr>nodes := nodes w @ [notification_element message type],
                 body := body w @ [notification]\<rparr>;
          w2 = setTimeout (AnimateIn notification) 100 w1
      in setTimeout (AnimateOut notification) 3000 w2)"

definition classList_remove :: "jsstring \<Rightarrow> element \<Rightarrow> element" where
  "classList_remove c el = el\<lparr>classList := filter (\<lambda>x. x \<noteq> c) (classList el)\<rparr>"

definition classList_add :: "jsstring \<Rightarrow> element \<Rightarrow> element" where
  "classList_add c el =
     (if c \<in> set (classList el) then el else el\<lparr>classList := classList el @ [c]\<rparr>)"

definition update_node :: "nat \<Rightarrow> (element \<Rightarrow> element) \<Rightarrow> world \<Rightarrow> world" where
  "update_node n f w =
     (if n < length (nodes w) then w\<lparr>nodes := (nodes w)[n := f (nodes w ! n)]\<rparr> else w)"

text \<open>The callbacks handed to \<open>setTimeout\<close> and \<open>setInterval\<close>.\<close>

fun run_task :: "task \<Rightarrow> world \<Rightarrow> world" where
  "run_task (AnimateIn n) w = update_node n (classList_remove (js ''translate-x-full'')) w"
| "run_task (AnimateOut n) w =
     setTimeout (RemoveNode n) 300 (update_node n (classList_add (js ''translate-x-full'')) w)"
| "run_task (RemoveNode n) w =
     (if n \<in> set (body w) then w\<lparr>body := removeAll n (body w)\<rparr> else w)"
| "run_task PollStats w = fetchStats w"

section \<open>The fetch functions, after their await\<close>

text \<open>
  \<open>resume r out\<close> is the rest of the async function that issued the call \<open>r\<close>, run when
  the call settles with \<open>out\<close>: the statements after the \<open>await\<close>, the \<open>catch\<close> block
  and the \<open>finally\<close> block.
\<close>

fun resume :: "request \<Rightarrow> outcome \<Rightarrow> world \<Rightarrow> world" where
  "resume (GetRecommend p) (Replied (Some d)) w =
     (let w1 = set_ui (\<lambda>s. s\<lparr>recommendations :=
                  (case data_recommendations d of None \<Rightarrow> [] | Some xs \<Rightarrow> xs)\<rparr>) w;
          w2 = set_ui (\<lambda>s. s\<lparr>algorithm := data_algorithm d\<rparr>) w1
      in set_ui (\<lambda>s. s\<lparr>loading := False\<rparr>) w2)"
| "resume (GetRecommend p) out w =
     (let w1 = console_log (js ''Error fetching recommendations:'') w;
          w2 = set_ui (\<lambda>s. s\<lparr>error :=
                  Some (js ''Failed to fetch recommendations. Please try again.'')\<rparr>) w1;
          w3 = set_ui (\<lambda>s. s\<lparr>recommendations := []\<rparr>) w2
      in set_ui (\<lambda>s. s\<lparr>loading := False\<rparr>) w3)"
| "resume (GetSearch p) (Replied (Some d)) w =
     (let w1 = set_ui (\<lambda>s. s\<lparr>searchResults :=
                  (case data_results d of None \<Rightarrow> [] | Some xs \<Rightarrow> xs)\<rparr>) w
      in set_ui (\<lambda>s. s\<lparr>searchLoading := False\<rparr>) w1)"
| "resume (GetSearch p) out w =
     (let w1 = console_log (js ''Error searching:'') w;
          w2 = set_ui (\<lambda>s. s\<lparr>error := Some (js ''Search failed. Please try again.'')\<rparr>) w1;
          w3 = set_ui (\<lambda>s. s\<lparr>searchResults := []\<rparr>) w2
      in set_ui (\<lambda>s. s\<lparr>searchLoading := False\<rparr>) w3)"
| "resume GetStats (Replied (Some d)) w = set_ui (\<lambda>s. s\<lparr>stats := data_statistics d\<rparr>) w"
| "resume GetStats out w = console_log (js ''Error fetching stats:'') w"
| "resume (GetAbArm u) (Replied b) w = set_ui (\<lambda>s. s\<lparr>abTestInfo := b\<rparr>) w"
| "resume (GetAbArm u) Failed w = console_log (js ''Error fetching A/B test info:'') w"
| "resume (PostEvent e) (Replied b) w =
     (let w1 = console_log
                 (js ''Logged '' @ ev_type e @ js '' interaction for item '' @ ev_item_id e) w
      in showNotification (capitalize (ev_type e) @ js '' recorded! '' @ [55356, 57225])
           (js ''success'') w1)"
| "resume (PostEvent e) Failed w =
     (let w1 = console_log (js ''Error logging interaction:'') w
      in showNotification (js ''Error logging interaction'') (js ''error'') w1)"

text \<open>A call settles once: the response of a call that is not in flight does nothing.\<close>

definition settle :: "nat \<Rightarrow> outcome \<Rightarrow> world \<Rightarrow> world" where
  "settle i out w =
     (if i \<in> set (inflight w) \<and> i < length (requests w)
      then resume (requests w ! i) out (w\<lparr>inflight := removeAll i (inflight w)\<rparr>)
      else w)"

section \<open>Handlers, effects and events\<close>

definition handleItemClick :: "item \<Rightarrow> world \<Rightarrow> world" where
  "handleItemClick it w =
     set_ui (\<lambda>s. s\<lparr>isModalOpen := True\<rparr>) (set_ui (\<lambda>s. s\<lparr>selectedItem := Some it\<rparr>) w)"

definition handleRefresh :: "world \<Rightarrow> world" where
  "handleRefresh w =
     (let w1 = (if activeTab (ui w) = RecommendationsTab then fetchRecommendations w
                else if lastSearchQuery (ui w) \<noteq> [] then handleSearch (lastSearchQuery (ui w)) w
                else w)
      in fetchAbTestInfo (fetchStats w1))"

text \<open>
  The effect \<open>useEffect(() => { fetchRecommendations(); fetchAbTestInfo(); },
  [fetchRecommendations, fetchAbTestInfo])\<close>. \<open>useCallback\<close> gives \<open>fetchRecommendations\<close>
  a new identity when \<open>currentUser\<close> or \<open>contentTypeFilter\<close> differs from the render
  before, and \<open>fetchAbTestInfo\<close> when \<open>currentUser\<close> does; the effect runs again after a
  render in which one of its two dependencies has a new identity. \<open>prev\<close> is the state
  of the render before.
\<close>

definition rerender :: "app_state \<Rightarrow> world \<Rightarrow> world" where
  "rerender prev w =
     (if mounted w \<and> (currentUser (ui w) \<noteq> currentUser prev
                       \<or> contentTypeFilter (ui w) \<noteq> contentTypeFilter prev)
      then fetchAbTestInfo (fetchRecommendations w) else w)"

text \<open>
  What the view can ask of the controller: the props \<open>onSearch\<close>, \<open>onSearchTypeChange\<close>,
  \<open>onUserChange\<close>, \<open>onContentTypeChange\<close>, \<open>onRefresh\<close>, \<open>onClick\<close> and \<open>onInteraction\<close>
  it hands to its children, the two tab buttons and the closing of the modal.
\<close>

datatype intent =
    OnSearch jsstring
  | OnSearchTypeChange jsstring
  | OnUserChange jsstring
  | OnContentTypeChange jsstring
  | OnRefresh
  | OnTabClick tab
  | OnItemClick item
  | OnInteraction jsstring jsstring jsobject
  | OnClose

fun handle_intent :: "intent \<Rightarrow> world \<Rightarrow> world" where
  "handle_intent (OnSearch q) w = handleSearch q w"
| "handle_intent (OnSearchTypeChange t) w = set_ui (\<lambda>s. s\<lparr>searchType := t\<rparr>) w"
| "handle_intent (OnUserChange u) w = set_ui (\<lambda>s. s\<lparr>currentUser := u\<rparr>) w"
| "handle_intent (OnContentTypeChange f) w = set_ui (\<lambda>s. s\<lparr>contentTypeFilter := f\<rparr>) w"
| "handle_intent OnRefresh w = handleRefresh w"
| "handle_intent (OnTabClick t) w = set_ui (\<lambda>s. s\<lparr>activeTab := t\<rparr>) w"
| "handle_intent (OnItemClick it) w = handleItemClick it w"
| "handle_intent (OnInteraction itemId interactionType ctx) w =
     logInteraction itemId interactionType ctx w"
| "handle_intent OnClose w = set_ui (\<lambda>s. s\<lparr>isModalOpen := False\<rparr>) w"

text \<open>A handler runs, then the component renders again and its effects run.\<close>

definition dispatch :: "intent \<Rightarrow> world \<Rightarrow> world" where
  "dispatch i w = (if mounted w then rerender (ui w) (handle_intent i w) else w)"

text \<open>
  Mounting runs both effects in the order of the source: the data effect, then the
  polling effect, which fetches the statistics and starts the interval of 30000 ms.
  Unmounting runs the cleanup of the polling effect.
\<close>

definition mount :: "world \<Rightarrow> world" where
  "mount w =
     (let w0 = w\<lparr>mounted := True\<rparr>;
          w1 = fetchAbTestInfo (fetchRecommendations w0);
          w2 = fetchStats w1;
          w3 = setInterval PollStats 30000 w2
      in w3\<lparr>stats_interval := Some (next_handle w2)\<rparr>)"

definition unmount :: "world \<Rightarrow> world" where
  "unmount w =
     (if mounted w
      then (case stats_interval w of
              None \<Rightarrow> w\<lparr>mounted := False\<rparr>
            | Some h \<Rightarrow> clearInterval h (w\<lparr>mounted := False\<rparr>))
      else w)"

text \<open>
  A timer that fires: an interval is armed again one period later, then the callback
  runs. One \<open>tick\<close> is one millisecond of the logical clock: the timers that are due
  are taken off the list and fire in the order they were set.
\<close>

definition fire :: "timer \<Rightarrow> world \<Rightarrow> world" where
  "fire t w =
     run_task (task t)
       (case period t of
          None \<Rightarrow> w
        | Some p \<Rightarrow> w\<lparr>timers := timers w @ [Timer (handle t) (due t + p) (Some p) (task t)]\<rparr>)"

definition tick :: "world \<Rightarrow> world" where
  "tick w =
     (let t = now w + 1;
          ready = filter (\<lambda>x. due x \<le> t) (timers w);
          w1 = w\<lparr>now := t, timers := filter (\<lambda>x. \<not> due x \<le> t) (timers w)\<rparr>
      in fold fire ready w1)"

datatype event = Intent intent | Settle nat outcome | Tick | Unmount

fun step :: "event \<Rightarrow> world \<Rightarrow> world" where
  "step (Intent i) w = dispatch i w"
| "step (Settle i out) w = rerender (ui w) (settle i out w)"
| "step Tick w = tick w"
| "step Unmount w = unmount w"

definition run :: "event list \<Rightarrow> world \<Rightarrow> world" where
  "run es w = fold step es w"

text \<open>The view as it stands right after its first render.\<close>

definition mounted_world :: world where
  "mounted_world = mount init_world"

section \<open>Notions used to state the properties\<close>

text \<open>
  The source keeps no generation counter. To state the rule of the specification on the
  source, the generation of a call is its rank among the calls of its kind in the log of
  network calls, and the current generation of a kind is the number of calls of that kind
  issued so far.
\<close>

definition generation_of :: "world \<Rightarrow> nat \<Rightarrow> nat" where
  "generation_of w i =
     length (filter (\<lambda>r. kind_of r = kind_of (requests w ! i)) (take (Suc i) (requests w)))"

definition current_generation :: "world \<Rightarrow> query_kind \<Rightarrow> nat" where
  "current_generation w k = length (filter (\<lambda>r. kind_of r = k) (requests w))"

text \<open>
  The timers of a world reachable from the mounted view: every pending timer is due in
  the future; the polling interval has handle 0 and period 30000; a timeout of a
  notification has another handle, no period and names an element that exists. Every
  child of the page body exists, and once the view is unmounted no polling timer is
  left.
\<close>

fun timer_ok :: "nat \<Rightarrow> nat \<Rightarrow> timer \<Rightarrow> bool" where
  "timer_ok t0 k (Timer h d p PollStats) = (t0 < d \<and> h = 0 \<and> p = Some 30000)"
| "timer_ok t0 k (Timer h d p (AnimateIn n)) = (t0 < d \<and> 0 < h \<and> p = None \<and> n < k)"
| "timer_ok t0 k (Timer h d p (AnimateOut n)) = (t0 < d \<and> 0 < h \<and> p = None \<and> n < k)"
| "timer_ok t0 k (Timer h d p (RemoveNode n)) = (t0 < d \<and> 0 < h \<and> p = None \<and> n < k)"

definition consistent :: "world \<Rightarrow> bool" where
  "consistent w \<longleftrightarrow>
     list_all (timer_ok (now w) (length (nodes w))) (timers w)
     \<and> list_all (\<lambda>n. n < length (nodes w)) (body w)
     \<and> 0 < next_handle w \<and> stats_interval w = Some 0
     \<and> (mounted w \<or> filter (\<lambda>t. task t = PollStats) (timers w) = [])"

text \<open>
  \<open>due_of k w\<close> lists the due times of the pending timers with callback \<open>k\<close>;
  \<open>produced k t0 t\<close> lists the due times of the timers with callback \<open>k\<close> that firing
  the timer \<open>t\<close> at time \<open>t0\<close> sets.
\<close>

definition due_of :: "task \<Rightarrow> world \<Rightarrow> nat list" where
  "due_of k w = map due (filter (\<lambda>t. task t = k) (timers w))"

definition produced :: "task \<Rightarrow> nat \<Rightarrow> timer \<Rightarrow> nat list" where
  "produced k t0 t =
     (case period t of None \<Rightarrow> [] | Some p \<Rightarrow> if task t = k then [due t + p] else [])
     @ (case task t of AnimateOut n \<Rightarrow> if k = RemoveNode n then [t0 + 300] else [] | _ \<Rightarrow> [])"

text \<open>
  The mounted view while it polls, \<open>r\<close> refreshes after mounting: the polling timer is
  due at the next multiple of 30000 ms, and the statistics have been fetched once at
  mount, once for every 30000 ms gone by and once per refresh.
\<close>

definition polling :: "world \<Rightarrow> nat \<Rightarrow> bool" where
  "polling w r \<longleftrightarrow>
     consistent w \<and> mounted w
     \<and> due_of PollStats w = [30000 * (now w div 30000 + 1)]
     \<and> count_list (requests w) GetStats = 1 + now w div 30000 + r"

text \<open>
  A notification element is off the screen while it carries the class
  \<open>translate-x-full\<close>. \<open>showing n T w\<close> describes the element \<open>n\<close> pushed at time \<open>T\<close>: it is
  a child of the page body until \<open>T + 3300\<close>; it is off the screen until its entrance
  timer fires at \<open>T + 100\<close> and again once its exit timer has fired at \<open>T + 3000\<close>,
  which sets the removal timer for \<open>T + 3300\<close>.
\<close>

definition offscreen :: "element \<Rightarrow> bool" where
  "offscreen el \<longleftrightarrow> js ''translate-x-full'' \<in> set (classList el)"

definition showing :: "nat \<Rightarrow> nat \<Rightarrow> world \<Rightarrow> bool" where
  "showing n T w \<longleftrightarrow>
     consistent w \<and> n < length (nodes w) \<and> T \<le> now w
     \<and> (n \<in> set (body w)) = (now w < T + 3300)
     \<and> offscreen (nodes w ! n) = (now w < T + 100 \<or> T + 3000 \<le> now w)
     \<and> due_of (AnimateIn n) w = (if now w < T + 100 then [T + 100] else [])
     \<and> due_of (AnimateOut n) w = (if now w < T + 3000 then [T + 3000] else [])
     \<and> due_of (RemoveNode n) w =
         (if T + 3000 \<le> now w \<and> now w < T + 3300 then [T + 3300] else [])"

section \<open>What each primitive changes\<close>

lemma set_ui_simps [simp]:
  "ui (set_ui f w) = (if mounted w then f (ui w) else ui w)"
  "mounted (set_ui f w) = mounted w"
  "requests (set_ui f w) = requests w"
  "inflight (set_ui f w) = inflight w"
  "console (set_ui f w) = console w"
  "nodes (set_ui f w) = nodes w"
  "body (set_ui f w) = body w"
  "now (set_ui f w) = now w"
  "timers (set_ui f w) = timers w"
  "next_handle (set_ui f w) = next_handle w"
  "stats_interval (set_ui f w) = stats_interval w"
  by (simp_all add: set_ui_def)

lemma issue_simps [simp]:
  "ui (issue r w) = ui w"
  "mounted (issue r w) = mounted w"
  "requests (issue r w) = requests w @ [r]"
  "inflight (issue r w) = inflight w @ [length (requests w)]"
  "console (issue r w) = console w"
  "nodes (issue r w) = nodes w"
  "body (issue r w) = body w"
  "now (issue r w) = now w"
  "timers (issue r w) = timers w"
  "next_handle (issue r w) = next_handle w"
  "stats_interval (issue r w) = stats_interval w"
  by (simp_all add: issue_def)

lemma console_log_simps [simp]:
  "ui (console_log m w) = ui w"
  "mounted (console_log m w) = mounted w"
  "requests (console_log m w) = requests w"
  "inflight (console_log m w) = inflight w"
  "console (console_log m w) = console w @ [m]"
  "nodes (console_log m w) = nodes w"
  "body (console_log m w) = body w"
  "now (console_log m w) = now w"
  "timers (console_log m w) = timers w"
  "next_handle (console_log m w) = next_handle w"
  "stats_interval (console_log m w) = stats_interval w"
  by (simp_all add: console_log_def)

lemma setTimeout_simps [simp]:
  "ui (setTimeout k d w) = ui w"
  "mounted (setTimeout k d w) = mounted w"
  "requests (setTimeout k d w) = requests w"
  "inflight (setTimeout k d w) = inflight w"
  "console (setTimeout k d w) = console w"
  "nodes (setTimeout k d w) = nodes w"
  "body (setTimeout k d w) = body w"
  "now (setTimeout k d w) = now w"
  "timers (setTimeout k d w) = timers w @ [Timer (next_handle w) (now w + d) None k]"
  "next_handle (setTimeout k d w) = Suc (next_handle w)"
  "stats_interval (setTimeout k d w) = stats_interval w"
  by (simp_all add: setTimeout_def)

lemma setInterval_simps [simp]:
  "ui (setInterval k d w) = ui w"
  "mounted (setInterval k d w) = mounted w"
  "requests (setInterval k d w) = requests w"
  "inflight (setInterval k d w) = inflight w"
  "console (setInterval k d w) = console w"
  "nodes (setInterval k d w) = nodes w"
  "body (setInterval k d w) = body w"
  "now (setInterval k d w) = now w"
  "timers (setInterval k d w) = timers w @ [Timer (next_handle w) (now w + d) (Some d) k]"
  "next_handle (setInterval k d w) = Suc (next_handle w)"
  "stats_interval (setInterval k d w) = stats_interval w"
  by (simp_all add: setInterval_def)

lemma clearInterval_simps [simp]:
  "ui (clearInterval h w) = ui w"
  "mounted (clearInterval h w) = mounted w"
  "requests (clearInterval h w) = requests w"
  "inflight (clearInterval h w) = inflight w"
  "console (clearInterval h w) = console w"
  "nodes (clearInterval h w) = nodes w"
  "body (clearInterval h w) = body w"
  "now (clearInterval h w) = now w"
  "timers (clearInterval h w) = filter (\<lambda>t. handle t \<noteq> h) (timers w)"
  "next_handle (clearInterval h w) = next_handle w"
  "stats_interval (clearInterval h w) = stats_interval w"
  by (simp_all add: clearInterval_def)

lemma update_node_simps [simp]:
  "ui (update_node n f w) = ui w"
  "mounted (update_node n f w) = mounted w"
  "requests (update_node n f w) = requests w"
  "inflight (update_node n f w) = inflight w"
  "console (update_node n f w) = console w"
  "body (update_node n f w) = body w"
  "now (update_node n f w) = now w"
  "timers (update_node n f w) = timers w"
  "next_handle (update_node n f w) = next_handle w"
  "stats_interval (update_node n f w) = stats_interval w"
  by (simp_all add: update_node_def)

lemma length_nodes_update_node [simp]:
  "length (nodes (update_node n f w)) = length (nodes w)"
  by (simp add: update_node_def)

lemma rerender_same [simp]: "rerender (ui w) w = w"
  by (simp add: rerender_def)

lemma showNotification_simps [simp]:
  "ui (showNotification m k w) = ui w"
  "mounted (showNotification m k w) = mounted w"
  "requests (showNotification m k w) = requests w"
  "inflight (showNotification m k w) = inflight w"
  "console (showNotification m k w) = console w"
  "nodes (showNotification m k w) = nodes w @ [notification_element m k]"
  "body (showNotification m k w) = body w @ [length (nodes w)]"
  "now (showNotification m k w) = now w"
  "timers (showNotification m k w) =
     timers w @ [Timer (next_handle w) (now w + 100) None (AnimateIn (length (nodes w))),
                 Timer (Suc (next_handle w)) (now w + 3000) None (AnimateOut (length (nodes w)))]"
  "next_handle (showNotification m k w) = Suc (Suc (next_handle w))"
  "stats_interval (showNotification m k w) = stats_interval w"
  by (simp_all add: showNotification_def Let_def)

lemma resume_keeps [simp]:
  "mounted (resume r out w) = mounted w"
  "requests (resume r out w) = requests w"
  "inflight (resume r out w) = inflight w"
  "now (resume r out w) = now w"
  "stats_interval (resume r out w) = stats_interval w"
  by (induction r out w rule: resume.induct; simp add: Let_def)+

lemma resume_keeps_session [simp]:
  "currentUser (ui (resume r out w)) = currentUser (ui w)"
  "contentTypeFilter (ui (resume r out w)) = contentTypeFilter (ui w)"
  "activeTab (ui (resume r out w)) = activeTab (ui w)"
  "lastSearchQuery (ui (resume r out w)) = lastSearchQuery (ui w)"
  "searchType (ui (resume r out w)) = searchType (ui w)"
  by (induction r out w rule: resume.induct; simp add: Let_def)+

lemma settle_keeps [simp]:
  "mounted (settle i out w) = mounted w"
  "requests (settle i out w) = requests w"
  "now (settle i out w) = now w"
  "stats_interval (settle i out w) = stats_interval w"
  "currentUser (ui (settle i out w)) = currentUser (ui w)"
  "contentTypeFilter (ui (settle i out w)) = contentTypeFilter (ui w)"
  "activeTab (ui (settle i out w)) = activeTab (ui w)"
  "lastSearchQuery (ui (settle i out w)) = lastSearchQuery (ui w)"
  "searchType (ui (settle i out w)) = searchType (ui w)"
  by (simp_all add: settle_def)

lemma step_Settle: "step (Settle i out) w = settle i out w"
  by (simp add: rerender_def)

declare step.simps(2) [simp del]

declare step_Settle [simp]

lemma settle_inflight:
  "i \<in> set (inflight w) \<Longrightarrow> i < length (requests w) \<Longrightarrow>
   settle i out w = resume (requests w ! i) out (w\<lparr>inflight := removeAll i (inflight w)\<rparr>)"
  by (simp add: settle_def)

lemma ui_resume_failed:
  "mounted w \<Longrightarrow> ui (resume r Failed w) =
     (case r of
        GetRecommend p \<Rightarrow>
          (ui w)\<lparr>error := Some (js ''Failed to fetch recommendations. Please try again.''),
                 recommendations := [], loading := False\<rparr>
      | GetSearch p \<Rightarrow>
          (ui w)\<lparr>error := Some (js ''Search failed. Please try again.''),
                 searchResults := [], searchLoading := False\<rparr>
      | GetStats \<Rightarrow> ui w
      | GetAbArm u \<Rightarrow> ui w
      | PostEvent e \<Rightarrow> ui w)"
  by (cases r) (simp_all add: Let_def)

lemma ui_resume_replied:
  "mounted w \<Longrightarrow> ui (resume r (Replied (Some d)) w) =
     (case r of
        GetRecommend p \<Rightarrow>
          (ui w)\<lparr>recommendations := (case data_recommendations d of None \<Rightarrow> [] | Some xs \<Rightarrow> xs),
                 algorithm := data_algorithm d, loading := False\<rparr>
      | GetSearch p \<Rightarrow>
          (ui w)\<lparr>searchResults := (case data_results d of None \<Rightarrow> [] | Some xs \<Rightarrow> xs),
                 searchLoading := False\<rparr>
      | GetStats \<Rightarrow> (ui w)\<lparr>stats := data_statistics d\<rparr>
      | GetAbArm u \<Rightarrow> (ui w)\<lparr>abTestInfo := Some d\<rparr>
      | PostEvent e \<Rightarrow> ui w)"
  by (cases r) (simp_all add: Let_def)

lemma console_resume_failed:
  "console (resume r Failed w) = console w @
     [case r of
        GetRecommend p \<Rightarrow> js ''Error fetching recommendations:''
      | GetSearch p \<Rightarrow> js ''Error searching:''
      | GetStats \<Rightarrow> js ''Error fetching stats:''
      | GetAbArm u \<Rightarrow> js ''Error fetching A/B test info:''
      | PostEvent e \<Rightarrow> js ''Error logging interaction:'']"
  by (cases r) (simp_all add: Let_def)

lemma upper_ascii_words:
  "capitalize (js ''click'') = js ''Click''" "capitalize (js ''view'') = js ''View''"
  "capitalize (js ''like'') = js ''Like''" "capitalize (js ''bookmark'') = js ''Bookmark''"
  "capitalize (js ''share'') = js ''Share''" "capitalize (js ''purchase'') = js ''Purchase''"
  by (simp_all add: capitalize_def toUpperCase_def upper_special_def upper_ranges_def js_def)

lemma upper_beyond_ascii:
  "toUpperCase 233 = [201]" "toUpperCase 223 = [83, 83]" "toUpperCase 55357 = [55357]"
  "toUpperCase 65 = [65]" "toUpperCase 49 = [49]" "toUpperCase 255 = [376]"
  by (simp_all add: toUpperCase_def upper_special_def upper_ranges_def)

lemma trim_Nil [simp]: "trim [] = []"
  by (simp add: trim_def)

lemma mounted_world_eq:
  "mounted_world =
     \<lparr> ui = initial_state\<lparr>loading := True\<rparr>, mounted = True,
       requests = [GetRecommend [(js ''user_id'', js ''demo_user_1''), (js ''n'', js ''20'')],
                   GetAbArm (js ''demo_user_1''), GetStats],
       inflight = [0, 1, 2], console = [], nodes = [], body = [], now = 0,
       timers = [Timer 0 30000 (Some 30000) PollStats], next_handle = 1,
       stats_interval = Some 0 \<rparr>"
proof -
  have u: "trim (js ''demo_user_1'') \<noteq> []"
    by (simp add: trim_def js_def isWhiteSpace_def)
  have i: "initial_state\<lparr>loading := True, error := None\<rparr> = initial_state\<lparr>loading := True\<rparr>"
    by (simp add: initial_state_def)
  show ?thesis
    unfolding mounted_world_def mount_def init_world_def Let_def fetchStats_def
      fetchAbTestInfo_def fetchRecommendations_def
    using u i by (simp add: issue_def set_ui_def setInterval_def initial_state_def)
qed

lemma cats: "trim (js ''cats'') \<noteq> []"
  by (simp add: trim_def js_def isWhiteSpace_def)

lemma demo_user: "js ''demo_user_1'' \<noteq> []" "trim (js ''demo_user_1'') \<noteq> []"
  by (simp_all add: trim_def js_def isWhiteSpace_def)

lemma mounted_world_simps:
  "ui mounted_world = initial_state\<lparr>loading := True\<rparr>"
  "mounted mounted_world"
  "requests mounted_world =
     [GetRecommend [(js ''user_id'', js ''demo_user_1''), (js ''n'', js ''20'')],
      GetAbArm (js ''demo_user_1''), GetStats]"
  "inflight mounted_world = [0, 1, 2]"
  "console mounted_world = []"
  "nodes mounted_world = []"
  "body mounted_world = []"
  "now mounted_world = 0"
  "timers mounted_world = [Timer 0 30000 (Some 30000) PollStats]"
  "next_handle mounted_world = 1"
  "stats_interval mounted_world = Some 0"
  by (simp_all add: mounted_world_eq)

lemma initial_state_simps:
  "currentUser initial_state = js ''demo_user_1''"
  "contentTypeFilter initial_state = []"
  "searchType initial_state = js ''simple''"
  "activeTab initial_state = RecommendationsTab"
  "lastSearchQuery initial_state = []"
  "error initial_state = None"
  "stats initial_state = None"
  "recommendations initial_state = []"
  "searchResults initial_state = []"
  by (simp_all add: initial_state_def)

lemma search_cats:
  "dispatch (OnSearch (js ''cats'')) mounted_world =
     mounted_world\<lparr>ui := initial_state\<lparr>loading := True, searchLoading := True, error := None,
                           lastSearchQuery := js ''cats'', activeTab := SearchTab\<rparr>,
       requests := requests mounted_world @
         [GetSearch [(js ''q'', js ''cats''), (js ''search_type'', js ''simple''),
                     (js ''limit'', js ''20''), (js ''user_id'', js ''demo_user_1'')]],
       inflight := [0, 1, 2, 3]\<rparr>"
  using cats demo_user
  by (simp add: dispatch_def handleSearch_def Let_def set_ui_def issue_def rerender_def
      mounted_world_simps initial_state_simps)

lemma dogs: "trim (js ''dogs'') \<noteq> []"
  by (simp add: trim_def js_def isWhiteSpace_def)

lemmas eval_defs = dispatch_def handleRefresh_def handleSearch_def fetchRecommendations_def
  fetchAbTestInfo_def fetchStats_def logInteraction_def Let_def set_ui_def issue_def rerender_def
  settle_def console_log_def run_def mounted_world_simps initial_state_simps demo_user

lemma resume_PostEvent_page:
  "ui (resume (PostEvent e) out w) = ui w"
  "body (resume (PostEvent e) out w) = body w @ [length (nodes w)]"
  "nodes (resume (PostEvent e) (Replied b) w) = nodes w @
     [notification_element (capitalize (ev_type e) @ js '' recorded! '' @ [55356, 57225])
        (js ''success'')]"
  "nodes (resume (PostEvent e) Failed w) = nodes w @
     [notification_element (js ''Error logging interaction'') (js ''error'')]"
  by (cases out; simp add: Let_def)+

section \<open>Handlers, timers and the page\<close>

lemma fetchRecommendations_page [simp]:
  "mounted (fetchRecommendations w) = mounted w"
  "nodes (fetchRecommendations w) = nodes w"
  "body (fetchRecommendations w) = body w"
  "now (fetchRecommendations w) = now w"
  "timers (fetchRecommendations w) = timers w"
  "next_handle (fetchRecommendations w) = next_handle w"
  "stats_interval (fetchRecommendations w) = stats_interval w"
  by (simp_all add: fetchRecommendations_def Let_def)

lemma handleSearch_page [simp]:
  "mounted (handleSearch q w) = mounted w"
  "nodes (handleSearch q w) = nodes w"
  "body (handleSearch q w) = body w"
  "now (handleSearch q w) = now w"
  "timers (handleSearch q w) = timers w"
  "next_handle (handleSearch q w) = next_handle w"
  "stats_interval (handleSearch q w) = stats_interval w"
  by (simp_all add: handleSearch_def Let_def)

lemma fetchStats_page [simp]:
  "mounted (fetchStats w) = mounted w"
  "nodes (fetchStats w) = nodes w"
  "body (fetchStats w) = body w"
  "now (fetchStats w) = now w"
  "timers (fetchStats w) = timers w"
  "next_handle (fetchStats w) = next_handle w"
  "stats_interval (fetchStats w) = stats_interval w"
  by (simp_all add: fetchStats_def)

lemma fetchAbTestInfo_page [simp]:
  "mounted (fetchAbTestInfo w) = mounted w"
  "nodes (fetchAbTestInfo w) = nodes w"
  "body (fetchAbTestInfo w) = body w"
  "now (fetchAbTestInfo w) = now w"
  "timers (fetchAbTestInfo w) = timers w"
  "next_handle (fetchAbTestInfo w) = next_handle w"
  "stats_interval (fetchAbTestInfo w) = stats_interval w"
  by (simp_all add: fetchAbTestInfo_def)

lemma logInteraction_page [simp]:
  "mounted (logInteraction a b c w) = mounted w"
  "nodes (logInteraction a b c w) = nodes w"
  "body (logInteraction a b c w) = body w"
  "now (logInteraction a b c w) = now w"
  "timers (logInteraction a b c w) = timers w"
  "next_handle (logInteraction a b c w) = next_handle w"
  "stats_interval (logInteraction a b c w) = stats_interval w"
  by (simp_all add: logInteraction_def Let_def)

lemma handleItemClick_page [simp]:
  "mounted (handleItemClick it w) = mounted w"
  "nodes (handleItemClick it w) = nodes w"
  "body (handleItemClick it w) = body w"
  "now (handleItemClick it w) = now w"
  "timers (handleItemClick it w) = timers w"
  "next_handle (handleItemClick it w) = next_handle w"
  "stats_interval (handleItemClick it w) = stats_interval w"
  by (simp_all add: handleItemClick_def)

lemma handleRefresh_page [simp]:
  "mounted (handleRefresh w) = mounted w"
  "nodes (handleRefresh w) = nodes w"
  "body (handleRefresh w) = body w"
  "now (handleRefresh w) = now w"
  "timers (handleRefresh w) = timers w"
  "next_handle (handleRefresh w) = next_handle w"
  "stats_interval (handleRefresh w) = stats_interval w"
  by (simp_all add: handleRefresh_def Let_def)

lemma rerender_page [simp]:
  "mounted (rerender prev w) = mounted w"
  "nodes (rerender prev w) = nodes w"
  "body (rerender prev w) = body w"
  "now (rerender prev w) = now w"
  "timers (rerender prev w) = timers w"
  "next_handle (rerender prev w) = next_handle w"
  "stats_interval (rerender prev w) = stats_interval w"
  by (simp_all add: rerender_def)

lemma handle_intent_page [simp]:
  "mounted (handle_intent i w) = mounted w"
  "nodes (handle_intent i w) = nodes w"
  "body (handle_intent i w) = body w"
  "now (handle_intent i w) = now w"
  "timers (handle_intent i w) = timers w"
  "next_handle (handle_intent i w) = next_handle w"
  "stats_interval (handle_intent i w) = stats_interval w"
  by (cases i; simp)+

lemma dispatch_page [simp]:
  "mounted (dispatch i w) = mounted w"
  "nodes (dispatch i w) = nodes w"
  "body (dispatch i w) = body w"
  "now (dispatch i w) = now w"
  "timers (dispatch i w) = timers w"
  "next_handle (dispatch i w) = next_handle w"
  "stats_interval (dispatch i w) = stats_interval w"
  by (simp_all add: dispatch_def)

lemma count_stats_simps [simp]:
  "count_list (requests (fetchRecommendations w)) GetStats = count_list (requests w) GetStats"
  "count_list (requests (handleSearch q w)) GetStats = count_list (requests w) GetStats"
  "count_list (requests (fetchStats w)) GetStats = Suc (count_list (requests w) GetStats)"
  "count_list (requests (fetchAbTestInfo w)) GetStats = count_list (requests w) GetStats"
  "count_list (requests (logInteraction a b c w)) GetStats = count_list (requests w) GetStats"
  "count_list (requests (handleItemClick it w)) GetStats = count_list (requests w) GetStats"
  by (simp_all add: fetchRecommendations_def handleSearch_def fetchStats_def fetchAbTestInfo_def
      logInteraction_def handleItemClick_def Let_def)

lemma count_stats_rerender [simp]:
  "count_list (requests (rerender prev w)) GetStats = count_list (requests w) GetStats"
  by (simp add: rerender_def)

lemma count_stats_handleRefresh [simp]:
  "count_list (requests (handleRefresh w)) GetStats = Suc (count_list (requests w) GetStats)"
  by (simp add: handleRefresh_def Let_def)

lemma count_stats_dispatch:
  "count_list (requests (dispatch i w)) GetStats =
     count_list (requests w) GetStats + (if mounted w \<and> i = OnRefresh then 1 else 0)"
  by (cases i) (simp_all add: dispatch_def)

lemma run_append [simp]: "run (es @ es') w = run es' (run es w)"
  by (simp add: run_def)

lemma run_Nil [simp]: "run [] w = w"
  by (simp add: run_def)

lemma run_Cons [simp]: "run (e # es) w = run es (step e w)"
  by (simp add: run_def)

lemma run_task_keeps [simp]:
  "ui (run_task k w) = ui w"
  "mounted (run_task k w) = mounted w"
  "now (run_task k w) = now w"
  "stats_interval (run_task k w) = stats_interval w"
  "length (nodes (run_task k w)) = length (nodes w)"
  by (cases k; simp add: fetchStats_def)+

lemma fire_keeps [simp]:
  "ui (fire t w) = ui w"
  "mounted (fire t w) = mounted w"
  "now (fire t w) = now w"
  "stats_interval (fire t w) = stats_interval w"
  "length (nodes (fire t w)) = length (nodes w)"
  by (simp_all add: fire_def split: option.split)

lemma fold_fire_keeps [simp]:
  "ui (fold fire ts w) = ui w"
  "mounted (fold fire ts w) = mounted w"
  "now (fold fire ts w) = now w"
  "stats_interval (fold fire ts w) = stats_interval w"
  "length (nodes (fold fire ts w)) = length (nodes w)"
  by (induction ts arbitrary: w; simp)+

lemma body_run_task:
  "n \<in> set (body (run_task k w)) \<longleftrightarrow> n \<in> set (body w) \<and> k \<noteq> RemoveNode n"
  by (cases k) auto

lemma body_fire:
  "n \<in> set (body (fire t w)) \<longleftrightarrow> n \<in> set (body w) \<and> task t \<noteq> RemoveNode n"
  by (simp add: fire_def body_run_task split: option.split)

lemma body_fold_fire:
  "n \<in> set (body (fold fire ts w)) \<longleftrightarrow> n \<in> set (body w) \<and> RemoveNode n \<notin> task ` set ts"
  by (induction ts arbitrary: w) (auto simp: body_fire)

lemma due_of_append_timer [simp]:
  "due_of k (w\<lparr>timers := timers w @ ts\<rparr>) =
     due_of k w @ map due (filter (\<lambda>t. task t = k) ts)"
  by (simp add: due_of_def)

lemma due_of_run_task:
  "due_of k (run_task j w) =
     due_of k w @ (case j of AnimateOut n \<Rightarrow> if k = RemoveNode n then [now w + 300] else []
                   | _ \<Rightarrow> [])"
  by (cases j) (auto simp: due_of_def fetchStats_def)

lemma due_of_fire: "due_of k (fire t w) = due_of k w @ produced k (now w) t"
  by (auto simp: fire_def due_of_run_task produced_def due_of_def split: option.split task.split)

lemma due_of_fold_fire:
  "due_of k (fold fire ts w) = due_of k w @ concat (map (produced k (now w)) ts)"
  by (induction ts arbitrary: w) (simp_all add: due_of_fire)

lemma count_stats_run_task:
  "count_list (requests (run_task k w)) GetStats =
     count_list (requests w) GetStats + (if k = PollStats then 1 else 0)"
  by (cases k) simp_all

lemma count_stats_fire:
  "count_list (requests (fire t w)) GetStats =
     count_list (requests w) GetStats + (if task t = PollStats then 1 else 0)"
  by (simp add: fire_def count_stats_run_task split: option.split)

lemma count_stats_fold_fire:
  "count_list (requests (fold fire ts w)) GetStats =
     count_list (requests w) GetStats + length (filter (\<lambda>t. task t = PollStats) ts)"
  by (induction ts arbitrary: w) (simp_all add: count_stats_fire)

lemma timer_ok_mono: "timer_ok t0 k t \<Longrightarrow> k \<le> k' \<Longrightarrow> timer_ok t0 k' t"
  by (cases "(t0, k, t)" rule: timer_ok.cases) simp_all

lemma timer_ok_due: "timer_ok t0 k t \<Longrightarrow> t0 < due t"
  by (cases "(t0, k, t)" rule: timer_ok.cases) simp_all

lemma timer_ok_later: "timer_ok t0 k t \<Longrightarrow> t1 < due t \<Longrightarrow> timer_ok t1 k t"
  by (cases "(t0, k, t)" rule: timer_ok.cases) simp_all

lemma timer_ok_poll:
  "timer_ok t0 k t \<Longrightarrow> task t = PollStats \<Longrightarrow> handle t = 0 \<and> period t = Some 30000"
  by (cases "(t0, k, t)" rule: timer_ok.cases) simp_all

lemma timer_ok_other:
  "timer_ok t0 k t \<Longrightarrow> task t \<noteq> PollStats \<Longrightarrow> 0 < handle t \<and> period t = None"
  by (cases "(t0, k, t)" rule: timer_ok.cases) simp_all

lemma timer_ok_node:
  "timer_ok t0 k t \<Longrightarrow> task t = AnimateIn n \<or> task t = AnimateOut n \<or> task t = RemoveNode n
   \<Longrightarrow> n < k"
  by (cases "(t0, k, t)" rule: timer_ok.cases) auto

lemma consistent_mounted_world: "consistent mounted_world"
  by (simp add: consistent_def mounted_world_simps)

lemma consistent_dispatch [simp]: "consistent (dispatch i w) = consistent w"
  by (simp add: consistent_def)

lemma consistent_showNotification:
  assumes "consistent w"
  shows "consistent (showNotification m k w)"
proof -
  have "list_all (timer_ok (now w) (Suc (length (nodes w)))) (timers w)"
    using assms by (auto simp: consistent_def list_all_iff intro: timer_ok_mono)
  moreover have "list_all (\<lambda>n. n < Suc (length (nodes w))) (body w)"
    using assms by (auto simp: consistent_def list_all_iff)
  ultimately show ?thesis
    using assms by (simp add: consistent_def)
qed

lemma consistent_frame:
  "now w' = now w \<Longrightarrow> nodes w' = nodes w \<Longrightarrow> timers w' = timers w \<Longrightarrow> body w' = body w
   \<Longrightarrow> next_handle w' = next_handle w \<Longrightarrow> stats_interval w' = stats_interval w
   \<Longrightarrow> mounted w' = mounted w \<Longrightarrow> consistent w' = consistent w"
  by (simp add: consistent_def)

lemma consistent_resume: "consistent w \<Longrightarrow> consistent (resume r out w)"
proof (induction r out w rule: resume.induct)
  case (9 e b w)
  then show ?case
    by (simp add: Let_def consistent_showNotification
        consistent_frame [of "console_log x w" w for x])
next
  case (10 e w)
  then show ?case
    by (simp add: Let_def consistent_showNotification
        consistent_frame [of "console_log x w" w for x])
qed (simp_all add: Let_def consistent_def)

lemma consistent_settle: "consistent w \<Longrightarrow> consistent (settle i out w)"
  by (simp add: settle_def consistent_resume
      consistent_frame [of "w\<lparr>inflight := x\<rparr>" w for x])

lemma consistent_unmount: "consistent w \<Longrightarrow> consistent (unmount w)"
proof -
  assume c: "consistent w"
  have h: "handle t = 0" if "t \<in> set (timers w)" and "task t = PollStats" for t
  proof -
    have "timer_ok (now w) (length (nodes w)) t"
      using c that(1) by (simp add: consistent_def list_all_iff)
    then show ?thesis using timer_ok_poll that(2) by blast
  qed
  have p: "filter (\<lambda>t. task t = PollStats) (filter (\<lambda>t. handle t \<noteq> 0) (timers w)) = []"
    using h by (auto simp: filter_empty_conv)
  show ?thesis
    using c p by (auto simp: unmount_def consistent_def list_all_iff)
qed

lemma consistent_fire:
  assumes "consistent w" and "timer_ok t0 (length (nodes w)) t" and "due t = now w"
    and "mounted w \<or> task t \<noteq> PollStats"
  shows "consistent (fire t w)"
proof (cases t)
  case (Timer h d p k)
  show ?thesis
  proof (cases k)
    case (AnimateIn n)
    then show ?thesis
      using assms Timer by (simp add: fire_def consistent_def)
  next
    case (AnimateOut n)
    then show ?thesis
      using assms Timer by (simp add: fire_def consistent_def)
  next
    case (RemoveNode n)
    then show ?thesis
      using assms Timer by (auto simp: fire_def consistent_def list_all_iff)
  next
    case PollStats
    then show ?thesis
      using assms Timer by (simp add: fire_def consistent_def fetchStats_def)
  qed
qed

lemma consistent_fold_fire:
  assumes "consistent w"
    and "\<forall>t\<in>set ts. timer_ok t0 (length (nodes w)) t \<and> due t = now w
           \<and> (mounted w \<or> task t \<noteq> PollStats)"
  shows "consistent (fold fire ts w)"
  using assms
proof (induction ts arbitrary: w)
  case Nil
  then show ?case by simp
next
  case (Cons t ts)
  have "consistent (fire t w)"
    using Cons.prems consistent_fire [of w t0 t] by simp
  then show ?case
    using Cons.prems by (simp add: Cons.IH)
qed

lemma tick_eq:
  "tick w = fold fire (filter (\<lambda>x. due x \<le> now w + 1) (timers w))
              (w\<lparr>now := now w + 1, timers := filter (\<lambda>x. \<not> due x \<le> now w + 1) (timers w)\<rparr>)"
  by (simp add: tick_def Let_def)

lemma consistent_tick:
  assumes "consistent w"
  shows "consistent (tick w)"
proof -
  let ?w1 = "w\<lparr>now := now w + 1, timers := filter (\<lambda>x. \<not> due x \<le> now w + 1) (timers w)\<rparr>"
  have ok: "timer_ok (now w) (length (nodes w)) t" if "t \<in> set (timers w)" for t
    using assms that by (simp add: consistent_def list_all_iff)
  have np: "task t \<noteq> PollStats" if "t \<in> set (timers w)" and "\<not> mounted w" for t
  proof -
    have "filter (\<lambda>t. task t = PollStats) (timers w) = []"
      using assms that(2) by (simp add: consistent_def)
    then show ?thesis using that(1) by (simp add: filter_empty_conv)
  qed
  have c1: "consistent ?w1"
    using assms
    by (auto simp: consistent_def list_all_iff filter_empty_conv intro: timer_ok_later)
  have r: "\<forall>t\<in>set (filter (\<lambda>x. due x \<le> now w + 1) (timers w)).
             timer_ok (now w) (length (nodes ?w1)) t \<and> due t = now ?w1
             \<and> (mounted ?w1 \<or> task t \<noteq> PollStats)"
  proof
    fix t assume t: "t \<in> set (filter (\<lambda>x. due x \<le> now w + 1) (timers w))"
    then have "now w < due t" using ok timer_ok_due by auto
    then have "due t = now w + 1" using t by simp
    then show "timer_ok (now w) (length (nodes ?w1)) t \<and> due t = now ?w1
             \<and> (mounted ?w1 \<or> task t \<noteq> PollStats)"
      using t ok np by auto
  qed
  show ?thesis
    unfolding tick_eq by (rule consistent_fold_fire [OF c1 r])
qed

lemma consistent_step: "consistent w \<Longrightarrow> consistent (step e w)"
  by (cases e) (simp_all add: consistent_settle consistent_tick consistent_unmount)

lemma consistent_run: "consistent w \<Longrightarrow> consistent (run es w)"
  by (induction es arbitrary: w) (simp_all add: consistent_step)

lemma due_of_frame:
  "timers w' = timers w \<Longrightarrow> due_of k w' = due_of k w"
  by (simp add: due_of_def)

lemma due_of_dispatch [simp]: "due_of k (dispatch i w) = due_of k w"
  by (rule due_of_frame) simp

lemma due_of_resume:
  "k \<noteq> AnimateIn (length (nodes w)) \<Longrightarrow> k \<noteq> AnimateOut (length (nodes w))
   \<Longrightarrow> due_of k (resume r out w) = due_of k w"
  by (induction r out w rule: resume.induct) (auto simp: due_of_def Let_def)

lemma due_of_settle:
  "k \<noteq> AnimateIn (length (nodes w)) \<Longrightarrow> k \<noteq> AnimateOut (length (nodes w))
   \<Longrightarrow> due_of k (settle i out w) = due_of k w"
  by (simp add: settle_def due_of_resume) (simp add: due_of_def)

lemma due_filter:
  "map due (filter (\<lambda>t. due t \<le> x \<and> task t = k) ts) =
     filter (\<lambda>d. d \<le> x) (map due (filter (\<lambda>t. task t = k) ts))"
  by (induction ts) simp_all

lemma due_filter_not:
  "map due (filter (\<lambda>t. \<not> due t \<le> x \<and> task t = k) ts) =
     filter (\<lambda>d. \<not> d \<le> x) (map due (filter (\<lambda>t. task t = k) ts))"
  by (induction ts) simp_all

lemma tick_Suc:
  "tick w = fold fire (filter (\<lambda>x. due x \<le> Suc (now w)) (timers w))
              (w\<lparr>now := Suc (now w),
                 timers := filter (\<lambda>x. \<not> due x \<le> Suc (now w)) (timers w)\<rparr>)"
  by (simp add: tick_def Let_def)

lemma produced_ok:
  "timer_ok t0 kk t \<Longrightarrow> produced k t1 t =
     (case k of
        PollStats \<Rightarrow> if task t = PollStats then [due t + 30000] else []
      | RemoveNode n \<Rightarrow> if task t = AnimateOut n then [t1 + 300] else []
      | _ \<Rightarrow> [])"
  by (cases "(t0, kk, t)" rule: timer_ok.cases) (auto simp: produced_def split: task.split)

lemma concat_produced:
  "\<forall>t\<in>set ts. timer_ok t0 kk t \<Longrightarrow> concat (map (produced k t1) ts) =
     (case k of
        PollStats \<Rightarrow> map (\<lambda>d. d + 30000) (map due (filter (\<lambda>t. task t = PollStats) ts))
      | RemoveNode n \<Rightarrow> map (\<lambda>d. t1 + 300) (map due (filter (\<lambda>t. task t = AnimateOut n) ts))
      | _ \<Rightarrow> [])"
  by (induction ts) (auto simp: produced_ok split: task.split)

lemma due_of_tick:
  assumes "consistent w"
  shows "due_of k (tick w) = filter (\<lambda>d. \<not> d \<le> Suc (now w)) (due_of k w) @
     (case k of
        PollStats \<Rightarrow> map (\<lambda>d. d + 30000) (filter (\<lambda>d. d \<le> Suc (now w)) (due_of PollStats w))
      | RemoveNode n \<Rightarrow>
          map (\<lambda>d. now w + 301) (filter (\<lambda>d. d \<le> Suc (now w)) (due_of (AnimateOut n) w))
      | _ \<Rightarrow> [])"
proof -
  let ?ready = "filter (\<lambda>x. due x \<le> Suc (now w)) (timers w)"
  let ?w1 = "w\<lparr>now := Suc (now w),
               timers := filter (\<lambda>x. \<not> due x \<le> Suc (now w)) (timers w)\<rparr>"
  have ok: "\<forall>t\<in>set ?ready. timer_ok (now w) (length (nodes w)) t"
    using assms by (simp add: consistent_def list_all_iff)
  have a: "due_of k ?w1 = filter (\<lambda>d. \<not> d \<le> Suc (now w)) (due_of k w)"
    by (simp add: due_of_def due_filter_not)
  have b: "map due (filter (\<lambda>t. task t = j) ?ready)
           = filter (\<lambda>d. d \<le> Suc (now w)) (due_of j w)" for j
    by (simp add: due_of_def due_filter)
  have c: "concat (map (produced k (now ?w1)) ?ready) =
     (case k of
        PollStats \<Rightarrow> map (\<lambda>d. d + 30000) (filter (\<lambda>d. d \<le> Suc (now w)) (due_of PollStats w))
      | RemoveNode n \<Rightarrow>
          map (\<lambda>d. now w + 301) (filter (\<lambda>d. d \<le> Suc (now w)) (due_of (AnimateOut n) w))
      | _ \<Rightarrow> [])"
    unfolding concat_produced [OF ok] b by (simp split: task.split)
  show ?thesis
    unfolding tick_Suc due_of_fold_fire a c ..
qed

lemma count_stats_tick:
  "count_list (requests (tick w)) GetStats =
     count_list (requests w) GetStats
     + length (filter (\<lambda>d. d \<le> Suc (now w)) (due_of PollStats w))"
proof -
  let ?ready = "filter (\<lambda>x. due x \<le> Suc (now w)) (timers w)"
  have "length (filter (\<lambda>t. task t = PollStats) ?ready)
        = length (map due (filter (\<lambda>t. task t = PollStats) ?ready))"
    by (simp only: length_map)
  also have "\<dots> = length (filter (\<lambda>d. d \<le> Suc (now w)) (due_of PollStats w))"
    by (simp add: due_of_def due_filter)
  finally show ?thesis
    unfolding tick_Suc count_stats_fold_fire by simp
qed

lemma now_tick [simp]: "now (tick w) = Suc (now w)"
  by (simp add: tick_Suc)

lemma tick_keeps [simp]:
  "mounted (tick w) = mounted w"
  "stats_interval (tick w) = stats_interval w"
  "ui (tick w) = ui w"
  "length (nodes (tick w)) = length (nodes w)"
  by (simp_all add: tick_Suc)

lemma unmount_keeps [simp]:
  "ui (unmount w) = ui w"
  "requests (unmount w) = requests w"
  "now (unmount w) = now w"
  "nodes (unmount w) = nodes w"
  "body (unmount w) = body w"
  "stats_interval (unmount w) = stats_interval w"
  "mounted (unmount w) = False"
  by (simp_all add: unmount_def split: option.split)

lemma now_step: "now (step e w) = now w + (if e = Tick then 1 else 0)"
  by (cases e) simp_all

lemma now_run: "now (run es w) = now w + count_list es Tick"
  by (induction es arbitrary: w) (simp_all add: now_step)

lemma poll_bounds:
  fixes n :: nat
  shows "30000 * (n div 30000) \<le> n" and "n < 30000 * (n div 30000 + 1)"
proof -
  show "30000 * (n div 30000) \<le> n" by simp
  have "n < 30000 + 30000 * (n div 30000)"
    by (rule dividend_less_times_div) simp
  then show "n < 30000 * (n div 30000 + 1)" by simp
qed

lemma poll_arith:
  fixes n :: nat
  shows "30000 * (n div 30000 + 1) \<le> Suc n \<Longrightarrow> Suc n div 30000 = n div 30000 + 1"
    and "\<not> 30000 * (n div 30000 + 1) \<le> Suc n \<Longrightarrow> Suc n div 30000 = n div 30000"
proof -
  assume a: "30000 * (n div 30000 + 1) \<le> Suc n"
  have "Suc n < 30000 * Suc (n div 30000 + 1)"
    using poll_bounds(2) [of n] by simp
  with a show "Suc n div 30000 = n div 30000 + 1"
    by (intro div_nat_eqI) simp_all
next
  assume a: "\<not> 30000 * (n div 30000 + 1) \<le> Suc n"
  have "30000 * (n div 30000) \<le> Suc n"
    using poll_bounds(1) [of n] by linarith
  moreover have "Suc n < 30000 * Suc (n div 30000)" using a by simp
  ultimately show "Suc n div 30000 = n div 30000"
    by (intro div_nat_eqI)
qed

lemma polling_mounted_world: "polling mounted_world 0"
  by (simp add: polling_def consistent_mounted_world due_of_def mounted_world_simps)

lemma polling_tick:
  assumes "polling w r"
  shows "polling (tick w) r"
proof -
  have c: "consistent w" and m: "mounted w"
    and d: "due_of PollStats w = [30000 * (now w div 30000 + 1)]"
    and n: "count_list (requests w) GetStats = 1 + now w div 30000 + r"
    using assms by (simp_all add: polling_def)
  show ?thesis
  proof (cases "30000 * (now w div 30000 + 1) \<le> Suc (now w)")
    case True
    then show ?thesis
      using c m n poll_arith(1) [OF True]
      by (simp add: polling_def consistent_tick due_of_tick count_stats_tick d)
  next
    case False
    then show ?thesis
      using c m n poll_arith(2) [OF False]
      by (simp add: polling_def consistent_tick due_of_tick count_stats_tick d)
  qed
qed

lemma polling_step:
  assumes "polling w r" and "e \<noteq> Unmount"
  shows "polling (step e w) (r + (if e = Intent OnRefresh then 1 else 0))"
proof (cases e)
  case (Intent i)
  then show ?thesis
    using assms by (simp add: polling_def count_stats_dispatch)
next
  case (Settle i out)
  then show ?thesis
    using assms by (simp add: polling_def consistent_settle due_of_settle)
next
  case Tick
  then show ?thesis
    using assms by (simp add: polling_tick)
next
  case Unmount
  then show ?thesis using assms by simp
qed

lemma polling_run:
  "polling w r \<Longrightarrow> Unmount \<notin> set es \<Longrightarrow> polling (run es w) (r + count_list es (Intent OnRefresh))"
proof (induction es arbitrary: w r)
  case Nil
  then show ?case by simp
next
  case (Cons e es)
  have ne: "e \<noteq> Unmount" using Cons.prems by auto
  have "polling (step e w) (r + (if e = Intent OnRefresh then 1 else 0))"
    using Cons.prems(1) ne by (rule polling_step)
  moreover have "Unmount \<notin> set es" using Cons.prems by simp
  ultimately have "polling (run es (step e w))
               (r + (if e = Intent OnRefresh then 1 else 0) + count_list es (Intent OnRefresh))"
    by (rule Cons.IH)
  then show ?case by (cases "e = Intent OnRefresh") simp_all
qed

lemma no_polls_due_of:
  "filter (\<lambda>t. task t = PollStats) (timers w) = [] \<Longrightarrow> due_of PollStats w = []"
  by (simp add: due_of_def)

lemma unmounted_step:
  assumes "consistent w" and "\<not> mounted w"
  shows "count_list (requests (step e w)) GetStats = count_list (requests w) GetStats
       \<and> \<not> mounted (step e w)"
proof -
  have "due_of PollStats w = []"
    using assms by (simp add: consistent_def no_polls_due_of)
  then show ?thesis
    using assms by (cases e) (simp_all add: dispatch_def count_stats_tick unmount_def)
qed

lemma unmounted_run:
  "consistent w \<Longrightarrow> \<not> mounted w \<Longrightarrow>
   count_list (requests (run es w)) GetStats = count_list (requests w) GetStats
   \<and> \<not> mounted (run es w)"
proof (induction es arbitrary: w)
  case Nil
  then show ?case by simp
next
  case (Cons e es)
  then show ?case
    using unmounted_step [of w e] consistent_step [of w e] by simp
qed

lemma count_list_replicate [simp]: "count_list (replicate n x) x = n"
  by (induction n) simp_all

lemma showing_dispatch: "showing n T (dispatch i w) = showing n T w"
  by (simp add: showing_def)

lemma page_resume:
  "length (nodes w) \<le> length (nodes (resume r out w))"
  "n < length (nodes w) \<Longrightarrow> (n \<in> set (body (resume r out w))) = (n \<in> set (body w))"
  "n < length (nodes w) \<Longrightarrow> nodes (resume r out w) ! n = nodes w ! n"
  by (induction r out w rule: resume.induct) (auto simp: Let_def nth_append)

lemma nodes_settle: "length (nodes w) \<le> length (nodes (settle i out w))"
  using page_resume(1) [of "w\<lparr>inflight := removeAll i (inflight w)\<rparr>" "requests w ! i" out]
  by (simp add: settle_def)

lemma body_settle:
  "n < length (nodes w) \<Longrightarrow> (n \<in> set (body (settle i out w))) = (n \<in> set (body w))"
  using page_resume(2) [of n "w\<lparr>inflight := removeAll i (inflight w)\<rparr>" "requests w ! i" out]
  by (simp add: settle_def)

lemma node_settle:
  "n < length (nodes w) \<Longrightarrow> nodes (settle i out w) ! n = nodes w ! n"
  using page_resume(3) [of n "w\<lparr>inflight := removeAll i (inflight w)\<rparr>" "requests w ! i" out]
  by (simp add: settle_def)

lemma showing_settle:
  assumes "showing n T w"
  shows "showing n T (settle i out w)"
proof -
  have n: "n < length (nodes w)" using assms by (simp add: showing_def)
  then have k: "AnimateOut n \<noteq> AnimateOut (length (nodes w))"
    "AnimateIn n \<noteq> AnimateIn (length (nodes w))" by simp_all
  have l: "n < length (nodes (settle i out w))"
    using n nodes_settle [of w i out] by linarith
  show ?thesis
    using assms l
    by (simp add: showing_def consistent_settle body_settle [OF n] node_settle [OF n]
        due_of_settle)
qed

lemma due_of_unmount:
  assumes "consistent w" and "k \<noteq> PollStats"
  shows "due_of k (unmount w) = due_of k w"
proof -
  have "filter (\<lambda>t. task t = k) (filter (\<lambda>t. handle t \<noteq> 0) (timers w))
        = filter (\<lambda>t. task t = k) (timers w)"
  proof -
    have "handle t \<noteq> 0" if "t \<in> set (timers w)" and "task t = k" for t
    proof -
      have "timer_ok (now w) (length (nodes w)) t"
        using assms(1) that(1) by (simp add: consistent_def list_all_iff)
      then show ?thesis using timer_ok_other [of "now w" "length (nodes w)" t] that(2) assms(2)
        by simp
    qed
    then show ?thesis by (auto intro: filter_cong)
  qed
  moreover have "stats_interval w = Some 0" using assms(1) by (simp add: consistent_def)
  ultimately show ?thesis
    by (simp add: due_of_def unmount_def)
qed

lemma showing_unmount:
  assumes "showing n T w"
  shows "showing n T (unmount w)"
  using assms by (simp add: showing_def consistent_unmount due_of_unmount)

lemma ready_task:
  "(k \<in> task ` set (filter (\<lambda>t. due t \<le> x) ts)) =
     (filter (\<lambda>d. d \<le> x) (map due (filter (\<lambda>t. task t = k) ts)) \<noteq> [])"
  by (induction ts) auto

lemma body_tick:
  "(n \<in> set (body (tick w))) =
     (n \<in> set (body w) \<and> filter (\<lambda>d. d \<le> Suc (now w)) (due_of (RemoveNode n) w) = [])"
  unfolding tick_Suc body_fold_fire ready_task by (simp add: due_of_def)

lemma offscreen_simps [simp]:
  "offscreen (classList_remove (js ''translate-x-full'') el) = False"
  "offscreen (classList_add (js ''translate-x-full'') el) = True"
  "offscreen (notification_element m k) = True"
  by (simp_all add: offscreen_def classList_remove_def classList_add_def
      notification_element_def Let_def)

lemma offscreen_run_task:
  "n < length (nodes w) \<Longrightarrow> offscreen (nodes (run_task k w) ! n) =
     (k = AnimateOut n \<or> (k \<noteq> AnimateIn n \<and> offscreen (nodes w ! n)))"
  by (cases k) (auto simp: update_node_def fetchStats_def nth_list_update)

lemma offscreen_fire:
  "n < length (nodes w) \<Longrightarrow> offscreen (nodes (fire t w) ! n) =
     (task t = AnimateOut n \<or> (task t \<noteq> AnimateIn n \<and> offscreen (nodes w ! n)))"
  by (simp add: fire_def offscreen_run_task split: option.split)

lemma offscreen_fold_fire:
  "n < length (nodes w) \<Longrightarrow>
   \<not> (AnimateIn n \<in> task ` set ts \<and> AnimateOut n \<in> task ` set ts) \<Longrightarrow>
   offscreen (nodes (fold fire ts w) ! n) =
     (AnimateOut n \<in> task ` set ts
      \<or> (AnimateIn n \<notin> task ` set ts \<and> offscreen (nodes w ! n)))"
proof (induction ts arbitrary: w)
  case Nil
  then show ?case by simp
next
  case (Cons t ts)
  have l: "n < length (nodes (fire t w))" using Cons.prems(1) by simp
  have nb: "\<not> (AnimateIn n \<in> task ` set ts \<and> AnimateOut n \<in> task ` set ts)"
    using Cons.prems(2) by auto
  show ?case
    using Cons.IH [OF l nb] Cons.prems(2)
    by (auto simp: offscreen_fire [OF Cons.prems(1)])
qed

lemma offscreen_tick:
  assumes "n < length (nodes w)"
    and "filter (\<lambda>d. d \<le> Suc (now w)) (due_of (AnimateIn n) w) = []
         \<or> filter (\<lambda>d. d \<le> Suc (now w)) (due_of (AnimateOut n) w) = []"
  shows "offscreen (nodes (tick w) ! n) =
     (filter (\<lambda>d. d \<le> Suc (now w)) (due_of (AnimateOut n) w) \<noteq> []
      \<or> (filter (\<lambda>d. d \<le> Suc (now w)) (due_of (AnimateIn n) w) = []
          \<and> offscreen (nodes w ! n)))"
proof -
  let ?ready = "filter (\<lambda>x. due x \<le> Suc (now w)) (timers w)"
  let ?w1 = "w\<lparr>now := Suc (now w),
               timers := filter (\<lambda>x. \<not> due x \<le> Suc (now w)) (timers w)\<rparr>"
  have r: "(k \<in> task ` set ?ready) = (filter (\<lambda>d. d \<le> Suc (now w)) (due_of k w) \<noteq> [])" for k
    unfolding ready_task by (simp add: due_of_def)
  have l: "n < length (nodes ?w1)" using assms(1) by simp
  have nb: "\<not> (AnimateIn n \<in> task ` set ?ready \<and> AnimateOut n \<in> task ` set ?ready)"
    unfolding r using assms(2) by blast
  show ?thesis
    unfolding tick_Suc offscreen_fold_fire [OF l nb] r by simp
qed

lemma showing_tick:
  assumes "showing n T w"
  shows "showing n T (tick w)"
proof -
  have c: "consistent w" using assms by (simp add: showing_def)
  have n: "n < length (nodes w)" using assms by (simp add: showing_def)
  consider "now w < T + 99" | "now w = T + 99" | "T + 100 \<le> now w" "now w < T + 2999"
    | "now w = T + 2999" | "T + 3000 \<le> now w" "now w < T + 3299"
    | "now w = T + 3299" | "T + 3300 \<le> now w" by linarith
  then show ?thesis
  proof cases
    case 1
    then show ?thesis
      using assms
      by (simp add: showing_def consistent_tick due_of_tick [OF c] body_tick
          offscreen_tick [OF n])
  next
    case 2
    then show ?thesis
      using assms
      by (simp add: showing_def consistent_tick due_of_tick [OF c] body_tick
          offscreen_tick [OF n])
  next
    case 3
    then show ?thesis
      using assms
      by (simp add: showing_def consistent_tick due_of_tick [OF c] body_tick
          offscreen_tick [OF n])
  next
    case 4
    then show ?thesis
      using assms
      by (simp add: showing_def consistent_tick due_of_tick [OF c] body_tick
          offscreen_tick [OF n])
  next
    case 5
    then show ?thesis
      using assms
      by (simp add: showing_def consistent_tick due_of_tick [OF c] body_tick
          offscreen_tick [OF n])
  next
    case 6
    then show ?thesis
      using assms
      by (simp add: showing_def consistent_tick due_of_tick [OF c] body_tick
          offscreen_tick [OF n])
  next
    case 7
    then show ?thesis
      using assms
      by (simp add: showing_def consistent_tick due_of_tick [OF c] body_tick
          offscreen_tick [OF n])
  qed
qed

lemma showing_step: "showing n T w \<Longrightarrow> showing n T (step e w)"
  by (cases e) (simp_all add: showing_dispatch showing_settle showing_tick showing_unmount)

lemma showing_run: "showing n T w \<Longrightarrow> showing n T (run es w)"
  by (induction es arbitrary: w) (simp_all add: showing_step)

lemma fresh_node:
  assumes "consistent w"
  shows "length (nodes w) \<notin> set (body w)"
    and "due_of (AnimateOut (length (nodes w))) w = []"
    and "due_of (RemoveNode (length (nodes w))) w = []"
    and "due_of (AnimateIn (length (nodes w))) w = []"
proof -
  show "length (nodes w) \<notin> set (body w)"
    using assms by (auto simp: consistent_def list_all_iff)
  have ok: "timer_ok (now w) (length (nodes w)) t" if "t \<in> set (timers w)" for t
    using assms that by (simp add: consistent_def list_all_iff)
  have "task t \<noteq> AnimateOut (length (nodes w)) \<and> task t \<noteq> RemoveNode (length (nodes w))
        \<and> task t \<noteq> AnimateIn (length (nodes w))" if "t \<in> set (timers w)" for t
    using timer_ok_node [OF ok [OF that], of "length (nodes w)"] by auto
  then show "due_of (AnimateOut (length (nodes w))) w = []"
    and "due_of (RemoveNode (length (nodes w))) w = []"
    and "due_of (AnimateIn (length (nodes w))) w = []"
    by (simp_all add: due_of_def filter_empty_conv)
qed

lemma due_of_showNotification:
  "due_of j (showNotification m k w) = due_of j w
     @ (if j = AnimateIn (length (nodes w)) then [now w + 100] else [])
     @ (if j = AnimateOut (length (nodes w)) then [now w + 3000] else [])"
  by (simp add: due_of_def)

lemma showing_init:
  assumes "consistent w"
  shows "showing (length (nodes w)) (now w) (showNotification m k w)"
  using assms fresh_node [OF assms]
  by (simp add: showing_def consistent_showNotification due_of_showNotification)

lemma showing_present:
  assumes "showing n T w"
  shows "(n \<in> set (body (run es w))) = (now w + count_list es Tick < T + 3300)"
    and "offscreen (nodes (run es w) ! n) =
           (now w + count_list es Tick < T + 100 \<or> T + 3000 \<le> now w + count_list es Tick)"
  using showing_run [OF assms, of es] by (simp_all add: showing_def now_run)

section \<open>Search submission and tab switches\<close>

text \<open>
  C5. A query that is empty after trimming: \<open>handleSearch\<close> returns at its guard, so
  the submission changes nothing at all: no network call is issued, and \<open>activeTab\<close>,
  \<open>lastSearchQuery\<close> and every other cell keep their values.
\<close>

theorem submitSearch_blank_is_noop:
  "trim q = [] \<Longrightarrow> step (Intent (OnSearch q)) w = w"
  by (simp add: dispatch_def handleSearch_def)

theorem submitSearch_blank_is_noop_witness:
  "trim (js ''  '') = [] \<and> step (Intent (OnSearch (js ''  ''))) mounted_world = mounted_world"
proof -
  have h: "trim (js ''  '') = []"
    by (simp add: trim_def js_def isWhiteSpace_def)
  show ?thesis using h submitSearch_blank_is_noop [OF h, of mounted_world] by simp
qed

text \<open>
  C6. A click on a tab button sets \<open>activeTab\<close> and nothing else: the list of network
  calls is the same (no fetch), and the recommendations and the search results are both
  kept.
\<close>

theorem changeTab_only_activeTab:
  "step (Intent (OnTabClick t)) w =
     (if mounted w then w\<lparr>ui := (ui w)\<lparr>activeTab := t\<rparr>\<rparr> else w)
   \<and> requests (step (Intent (OnTabClick t)) w) = requests w
   \<and> recommendations (ui (step (Intent (OnTabClick t)) w)) = recommendations (ui w)
   \<and> searchResults (ui (step (Intent (OnTabClick t)) w)) = searchResults (ui w)"
  by (simp add: dispatch_def set_ui_def rerender_def)

section \<open>A search that fails\<close>

text \<open>
  C10. A query that is not empty after trimming: the submission stores the query in
  \<open>lastSearchQuery\<close>, makes \<open>search\<close> the active tab and issues the search call, which
  is then in flight, so both cells are set before the call settles. When a search call
  fails, in any later state \<open>v\<close> of the mounted view, the failure path changes three
  cells only: the error message is set, the search results are emptied and the loading
  flag of the search is lowered; \<open>activeTab\<close> and \<open>lastSearchQuery\<close> keep their values.
\<close>

theorem search_failure_keeps_tab_and_query:
  assumes "trim q \<noteq> []" and "mounted w"
    and "mounted v" and "i \<in> set (inflight v)" and "i < length (requests v)"
    and "requests v ! i = GetSearch p"
  shows "lastSearchQuery (ui (step (Intent (OnSearch q)) w)) = q
       \<and> activeTab (ui (step (Intent (OnSearch q)) w)) = SearchTab
       \<and> requests (step (Intent (OnSearch q)) w) ! length (requests w) =
           GetSearch ([(js ''q'', q), (js ''search_type'', searchType (ui w)), (js ''limit'', js ''20'')]
              @ (if currentUser (ui w) \<noteq> [] then [(js ''user_id'', currentUser (ui w))] else [])
              @ (if contentTypeFilter (ui w) \<noteq> []
                 then [(js ''content_type'', contentTypeFilter (ui w))] else []))
       \<and> length (requests w) \<in> set (inflight (step (Intent (OnSearch q)) w))
       \<and> ui (step (Settle (length (requests w)) Failed) (step (Intent (OnSearch q)) w)) =
           (ui w)\<lparr>lastSearchQuery := q, activeTab := SearchTab,
                  error := Some (js ''Search failed. Please try again.''),
                  searchResults := [], searchLoading := False\<rparr>
       \<and> ui (step (Settle i Failed) v) =
           (ui v)\<lparr>error := Some (js ''Search failed. Please try again.''),
                  searchResults := [], searchLoading := False\<rparr>"
proof -
  let ?r = "GetSearch ([(js ''q'', q), (js ''search_type'', searchType (ui w)), (js ''limit'', js ''20'')]
              @ (if currentUser (ui w) \<noteq> [] then [(js ''user_id'', currentUser (ui w))] else [])
              @ (if contentTypeFilter (ui w) \<noteq> []
                 then [(js ''content_type'', contentTypeFilter (ui w))] else []))"
  have w1: "dispatch (OnSearch q) w =
              w\<lparr>ui := (ui w)\<lparr>searchLoading := True, error := None, lastSearchQuery := q,
                             activeTab := SearchTab\<rparr>,
                requests := requests w @ [?r],
                inflight := inflight w @ [length (requests w)]\<rparr>"
    using assms(1,2)
    by (simp add: dispatch_def handleSearch_def Let_def set_ui_def issue_def rerender_def)
  have a: "lastSearchQuery (ui (step (Intent (OnSearch q)) w)) = q"
    "activeTab (ui (step (Intent (OnSearch q)) w)) = SearchTab"
    "requests (step (Intent (OnSearch q)) w) ! length (requests w) = ?r"
    "length (requests w) \<in> set (inflight (step (Intent (OnSearch q)) w))"
    by (simp_all add: w1)
  have m1: "mounted (dispatch (OnSearch q) w)" by (simp add: w1 assms(2))
  have b: "ui (step (Settle (length (requests w)) Failed) (step (Intent (OnSearch q)) w)) =
           (ui w)\<lparr>lastSearchQuery := q, activeTab := SearchTab,
                  error := Some (js ''Search failed. Please try again.''),
                  searchResults := [], searchLoading := False\<rparr>"
    using a(3,4) m1 by (simp add: settle_def ui_resume_failed) (simp add: w1)
  have c: "ui (step (Settle i Failed) v) =
           (ui v)\<lparr>error := Some (js ''Search failed. Please try again.''),
                  searchResults := [], searchLoading := False\<rparr>"
    using assms(3-6) by (simp add: settle_def ui_resume_failed)
  from a b c show ?thesis by blast
qed

theorem search_failure_keeps_tab_and_query_witness:
  "trim (js ''cats'') \<noteq> [] \<and> mounted mounted_world
   \<and> 3 \<in> set (inflight (step (Intent (OnSearch (js ''cats''))) mounted_world))
   \<and> lastSearchQuery (ui (step (Settle 3 Failed)
         (step (Intent (OnSearch (js ''cats''))) mounted_world))) = js ''cats''
   \<and> activeTab (ui (step (Settle 3 Failed)
         (step (Intent (OnSearch (js ''cats''))) mounted_world))) = SearchTab
   \<and> searchResults (ui (step (Settle 3 Failed)
         (step (Intent (OnSearch (js ''cats''))) mounted_world))) = []
   \<and> error (ui (step (Settle 3 Failed)
         (step (Intent (OnSearch (js ''cats''))) mounted_world)))
       = Some (js ''Search failed. Please try again.'')"
proof -
  let ?v = "step (Intent (OnSearch (js ''cats''))) mounted_world"
  have m: "mounted mounted_world" by (simp add: mounted_world_simps)
  have mv: "mounted ?v" by (simp add: search_cats mounted_world_simps)
  have i: "3 \<in> set (inflight ?v)" by (simp add: search_cats)
  have l: "3 < length (requests ?v)" by (simp add: search_cats mounted_world_simps)
  have r: "requests ?v ! 3 = GetSearch [(js ''q'', js ''cats''), (js ''search_type'', js ''simple''),
                     (js ''limit'', js ''20''), (js ''user_id'', js ''demo_user_1'')]"
    by (simp add: search_cats mounted_world_simps)
  from search_failure_keeps_tab_and_query [OF cats m mv i l r]
  have "ui (step (Settle 3 Failed) ?v) =
           (ui ?v)\<lparr>error := Some (js ''Search failed. Please try again.''),
                  searchResults := [], searchLoading := False\<rparr>"
    by blast
  then show ?thesis using cats m i by (simp add: search_cats)
qed

section \<open>Responses that arrive out of order\<close>

text \<open>
  C1 as stated fails: two searches overlap, the response of the second (generation 2)
  arrives first and the response of the first (generation 1) arrives after it. The
  earlier call is not of the current generation when its response arrives, and still
  the response replaces the search results.
\<close>

theorem stale_search_response_counterexample:
  "(let w = run [Intent (OnSearch (js ''cats'')), Intent (OnSearch (js ''dogs'')),
                 Settle 4 (Replied (Some \<lparr>data_recommendations = None, data_algorithm = None,
                    data_results = Some [Item (js ''d1'') (js ''Dogs'')],
                    data_statistics = None, data_arm = None\<rparr>))] mounted_world;
        w' = step (Settle 3 (Replied (Some \<lparr>data_recommendations = None, data_algorithm = None,
                    data_results = Some [Item (js ''c1'') (js ''Cats'')],
                    data_statistics = None, data_arm = None\<rparr>))) w
    in 3 \<in> set (inflight w) \<and> kind_of (requests w ! 3) = Search \<and> generation_of w 3 = 1
       \<and> current_generation w Search = 2
       \<and> searchResults (ui w) = [Item (js ''d1'') (js ''Dogs'')]
       \<and> searchResults (ui w') = [Item (js ''c1'') (js ''Cats'')]
       \<and> searchResults (ui w') \<noteq> searchResults (ui w))"
proof -
  have n: "js ''c1'' \<noteq> js ''d1''" by (simp add: js_def)
  show ?thesis
    using cats dogs n
    by (simp add: eval_defs generation_of_def current_generation_def)
qed

text \<open>
  C1, amended. The response of a call that is in flight is applied when it arrives,
  whatever its generation: the recommendations and the algorithm, the search results,
  the statistics or the experiment arm are set from the body, with nothing compared
  against the calls issued since. With overlapping calls of one kind, the state shows the
  response that arrived last.
\<close>

theorem response_applied_whatever_generation:
  assumes "mounted v" and "i \<in> set (inflight v)" and "i < length (requests v)"
  shows "ui (step (Settle i (Replied (Some d))) v) =
           (case requests v ! i of
              GetRecommend p \<Rightarrow>
                (ui v)\<lparr>recommendations :=
                         (case data_recommendations d of None \<Rightarrow> [] | Some xs \<Rightarrow> xs),
                       algorithm := data_algorithm d, loading := False\<rparr>
            | GetSearch p \<Rightarrow>
                (ui v)\<lparr>searchResults := (case data_results d of None \<Rightarrow> [] | Some xs \<Rightarrow> xs),
                       searchLoading := False\<rparr>
            | GetStats \<Rightarrow> (ui v)\<lparr>stats := data_statistics d\<rparr>
            | GetAbArm u \<Rightarrow> (ui v)\<lparr>abTestInfo := Some d\<rparr>
            | PostEvent e \<Rightarrow> ui v)"
  using assms by (simp add: settle_inflight ui_resume_replied split: request.split)

theorem response_applied_whatever_generation_witness:
  "(let v = run [Intent (OnSearch (js ''cats'')), Intent (OnSearch (js ''dogs'')),
                 Settle 4 (Replied (Some \<lparr>data_recommendations = None, data_algorithm = None,
                    data_results = Some [Item (js ''d1'') (js ''Dogs'')],
                    data_statistics = None, data_arm = None\<rparr>))] mounted_world
    in mounted v \<and> 3 \<in> set (inflight v) \<and> 3 < length (requests v)
       \<and> generation_of v 3 < current_generation v Search
       \<and> searchResults (ui (step (Settle 3 (Replied (Some
              \<lparr>data_recommendations = None, data_algorithm = None,
                data_results = Some [Item (js ''c1'') (js ''Cats'')],
                data_statistics = None, data_arm = None\<rparr>))) v))
           = [Item (js ''c1'') (js ''Cats'')])"
proof -
  let ?v = "run [Intent (OnSearch (js ''cats'')), Intent (OnSearch (js ''dogs'')),
                 Settle 4 (Replied (Some \<lparr>data_recommendations = None, data_algorithm = None,
                    data_results = Some [Item (js ''d1'') (js ''Dogs'')],
                    data_statistics = None, data_arm = None\<rparr>))] mounted_world"
  have m: "mounted ?v" and i: "3 \<in> set (inflight ?v)" and l: "3 < length (requests ?v)"
    using cats dogs by (simp_all add: eval_defs)
  have r: "requests ?v ! 3 =
             GetSearch [(js ''q'', js ''cats''), (js ''search_type'', js ''simple''),
                        (js ''limit'', js ''20''), (js ''user_id'', js ''demo_user_1'')]"
    using cats dogs by (simp add: eval_defs)
  have g: "generation_of ?v 3 < current_generation ?v Search"
    using cats dogs by (simp add: eval_defs generation_of_def current_generation_def)
  have "searchResults (ui (step (Settle 3 (Replied (Some
              \<lparr>data_recommendations = None, data_algorithm = None,
                data_results = Some [Item (js ''c1'') (js ''Cats'')],
                data_statistics = None, data_arm = None\<rparr>))) ?v))
           = [Item (js ''c1'') (js ''Cats'')]"
    unfolding response_applied_whatever_generation [OF m i l] r by simp
  with m i l g show ?thesis unfolding Let_def by blast
qed

section \<open>Calls that fail\<close>

text \<open>
  C2 as stated fails for the statistics: the statistics are on display, a refresh issues
  the statistics call again (call 4) and it fails. The statistics stay and no error
  message is set.
\<close>

theorem stats_failure_counterexample:
  "stats (ui (run [Settle 2 (Replied (Some \<lparr>data_recommendations = None, data_algorithm = None,
                      data_results = None, data_statistics = Some (StatsSnapshot 3 7),
                      data_arm = None\<rparr>)),
                   Intent OnRefresh, Settle 4 Failed] mounted_world)) = Some (StatsSnapshot 3 7)
   \<and> error (ui (run [Settle 2 (Replied (Some \<lparr>data_recommendations = None, data_algorithm = None,
                      data_results = None, data_statistics = Some (StatsSnapshot 3 7),
                      data_arm = None\<rparr>)),
                   Intent OnRefresh, Settle 4 Failed] mounted_world)) = None
   \<and> requests (run [Settle 2 (Replied (Some \<lparr>data_recommendations = None, data_algorithm = None,
                      data_results = None, data_statistics = Some (StatsSnapshot 3 7),
                      data_arm = None\<rparr>)),
                   Intent OnRefresh] mounted_world) ! 4 = GetStats"
  by (simp add: eval_defs)

text \<open>
  C2, amended. When a call fails, the state cells change by the kind of the call: a
  failed recommendations call empties the recommendations, sets its error message and
  lowers \<open>loading\<close>; a failed search call empties the search results, sets its error
  message and lowers \<open>searchLoading\<close>; a failed statistics call and a failed
  experiment-arm call change no cell at all. Every failure writes one line to the
  console. In each case the data of the other kinds is as before.
\<close>

theorem failure_handling_by_kind:
  assumes "mounted v" and "i \<in> set (inflight v)" and "i < length (requests v)"
  shows "ui (step (Settle i Failed) v) =
           (case requests v ! i of
              GetRecommend p \<Rightarrow>
                (ui v)\<lparr>error := Some (js ''Failed to fetch recommendations. Please try again.''),
                       recommendations := [], loading := False\<rparr>
            | GetSearch p \<Rightarrow>
                (ui v)\<lparr>error := Some (js ''Search failed. Please try again.''),
                       searchResults := [], searchLoading := False\<rparr>
            | GetStats \<Rightarrow> ui v
            | GetAbArm u \<Rightarrow> ui v
            | PostEvent e \<Rightarrow> ui v)
       \<and> console (step (Settle i Failed) v) = console v @
           [case requests v ! i of
              GetRecommend p \<Rightarrow> js ''Error fetching recommendations:''
            | GetSearch p \<Rightarrow> js ''Error searching:''
            | GetStats \<Rightarrow> js ''Error fetching stats:''
            | GetAbArm u \<Rightarrow> js ''Error fetching A/B test info:''
            | PostEvent e \<Rightarrow> js ''Error logging interaction:'']"
  using assms by (simp add: settle_inflight ui_resume_failed console_resume_failed split: request.split)

theorem failure_handling_by_kind_witness:
  "mounted mounted_world \<and> 2 \<in> set (inflight mounted_world)
   \<and> requests mounted_world ! 2 = GetStats
   \<and> ui (step (Settle 2 Failed) mounted_world) = ui mounted_world
   \<and> console (step (Settle 2 Failed) mounted_world) = [js ''Error fetching stats:'']"
proof -
  have m: "mounted mounted_world" and i: "2 \<in> set (inflight mounted_world)"
    and l: "2 < length (requests mounted_world)"
    and r: "requests mounted_world ! 2 = GetStats"
    by (simp_all add: mounted_world_simps)
  show ?thesis
    using failure_handling_by_kind [OF m i l] m i r by (simp add: mounted_world_simps)
qed

section \<open>Changes of the filter and of the user\<close>

text \<open>
  C3 as stated fails: choosing the content type \<open>video\<close> in the mounted view issues a
  recommendations call and an experiment-arm call, with no refresh.
\<close>

theorem filter_change_counterexample:
  "contentTypeFilter (ui mounted_world) \<noteq> js ''video''
   \<and> requests (step (Intent (OnContentTypeChange (js ''video''))) mounted_world) =
       requests mounted_world @
         [GetRecommend [(js ''user_id'', js ''demo_user_1''), (js ''n'', js ''20''),
                        (js ''content_type'', js ''video'')],
          GetAbArm (js ''demo_user_1'')]
   \<and> requests (step (Intent (OnContentTypeChange (js ''video''))) mounted_world)
       \<noteq> requests mounted_world"
proof -
  have n: "js ''video'' \<noteq> []" by (simp add: js_def)
  show ?thesis using n by (simp add: eval_defs)
qed

text \<open>
  C3, amended. A change of the content-type filter or of the user id updates the cell,
  and when the new value differs from the old one the data effect runs again: it issues
  the recommendations call (with the new filter or user) and the experiment-arm call,
  both only when the user id is not empty after trimming. When the value is the same,
  nothing is fetched.
\<close>

theorem session_change_refetches:
  assumes "mounted w"
  shows "contentTypeFilter (ui (step (Intent (OnContentTypeChange f)) w)) = f
       \<and> requests (step (Intent (OnContentTypeChange f)) w) = requests w @
           (if f \<noteq> contentTypeFilter (ui w) \<and> trim (currentUser (ui w)) \<noteq> []
            then [GetRecommend ([(js ''user_id'', currentUser (ui w)), (js ''n'', js ''20'')]
                    @ (if f \<noteq> [] then [(js ''content_type'', f)] else [])),
                  GetAbArm (currentUser (ui w))]
            else [])
       \<and> currentUser (ui (step (Intent (OnUserChange u)) w)) = u
       \<and> requests (step (Intent (OnUserChange u)) w) = requests w @
           (if u \<noteq> currentUser (ui w) \<and> trim u \<noteq> []
            then [GetRecommend ([(js ''user_id'', u), (js ''n'', js ''20'')]
                    @ (if contentTypeFilter (ui w) \<noteq> []
                       then [(js ''content_type'', contentTypeFilter (ui w))] else [])),
                  GetAbArm u]
            else [])"
  using assms
  by (simp add: dispatch_def rerender_def fetchRecommendations_def fetchAbTestInfo_def Let_def)

theorem session_change_refetches_witness:
  "mounted mounted_world
   \<and> requests (step (Intent (OnUserChange (js ''demo_user_2''))) mounted_world) =
       requests mounted_world @
         [GetRecommend [(js ''user_id'', js ''demo_user_2''), (js ''n'', js ''20'')],
          GetAbArm (js ''demo_user_2'')]"
proof -
  have m: "mounted mounted_world" by (simp add: mounted_world_simps)
  have n: "js ''demo_user_2'' \<noteq> js ''demo_user_1''" "trim (js ''demo_user_2'') \<noteq> []"
    by (simp_all add: js_def trim_def isWhiteSpace_def)
  show ?thesis
    using session_change_refetches [OF m, of "[]" "js ''demo_user_2''"] m n
    by (simp add: mounted_world_simps initial_state_simps)
qed

section \<open>Refresh\<close>




section \<open>Polling of the statistics\<close>

text \<open>
  C7. Time is the logical clock of the model: one \<open>Tick\<close> is one millisecond, and a
  timer fires at the tick it is due. The mounted view has fetched the statistics once.
  After any events without an unmount, the statistics calls issued are that one, one
  for every 30000 ticks gone by (the interval), and one per refresh the user asked for.
  After an unmount, whatever events follow, no further statistics call is issued and no
  polling timer is pending: the cleanup has cleared the interval.
\<close>

theorem polling_scheduler:
  assumes "Unmount \<notin> set es"
  shows "count_list (requests mounted_world) GetStats = 1
       \<and> count_list (requests (run es mounted_world)) GetStats =
           1 + count_list es Tick div 30000 + count_list es (Intent OnRefresh)
       \<and> count_list (requests (run (es1 @ Unmount # es2) mounted_world)) GetStats =
           count_list (requests (run es1 mounted_world)) GetStats
       \<and> filter (\<lambda>t. task t = PollStats) (timers (run (es1 @ Unmount # es2) mounted_world)) = []"
proof -
  have a: "count_list (requests mounted_world) GetStats = 1"
    by (simp add: mounted_world_simps)
  have "polling (run es mounted_world) (count_list es (Intent OnRefresh))"
    using polling_run [OF polling_mounted_world assms] by simp
  then have b: "count_list (requests (run es mounted_world)) GetStats =
           1 + count_list es Tick div 30000 + count_list es (Intent OnRefresh)"
    by (simp add: polling_def now_run mounted_world_simps)
  let ?u = "unmount (run es1 mounted_world)"
  have c1: "consistent (run es1 mounted_world)"
    by (simp add: consistent_run consistent_mounted_world)
  then have cu: "consistent ?u" by (rule consistent_unmount)
  have mu: "\<not> mounted ?u" by simp
  have c: "count_list (requests (run (es1 @ Unmount # es2) mounted_world)) GetStats =
           count_list (requests (run es1 mounted_world)) GetStats"
    using unmounted_run [OF cu mu, of es2] by simp
  have "consistent (run es2 ?u)" using cu by (rule consistent_run)
  moreover have "\<not> mounted (run es2 ?u)" using unmounted_run [OF cu mu, of es2] by simp
  ultimately have d: "filter (\<lambda>t. task t = PollStats)
                        (timers (run (es1 @ Unmount # es2) mounted_world)) = []"
    by (simp add: consistent_def)
  from a b c d show ?thesis by blast
qed

theorem polling_scheduler_witness:
  "Unmount \<notin> set (replicate 60000 Tick)
   \<and> count_list (requests (run (replicate 60000 Tick) mounted_world)) GetStats = 3
   \<and> count_list (requests (run (replicate 60000 Tick @ Unmount # replicate 60000 Tick)
         mounted_world)) GetStats = 3"
proof -
  have h: "Unmount \<notin> set (replicate 60000 Tick)" by simp
  show ?thesis
    using polling_scheduler [OF h, of "replicate 60000 Tick" "replicate 60000 Tick"] h
    by simp
qed

section \<open>Interaction events\<close>

text \<open>
  C8. An interaction on an item posts one event whose user id is the current user, and
  changes no state cell. When the post succeeds, one element is appended to the page
  with the success colour \<open>bg-green-500\<close> (and not the error colour) and the text
  made from the interaction type; when it fails, one element with the error colour
  \<open>bg-red-500\<close> (and not the success colour) and the error text. In both cases every
  state cell (result lists and session included) is as before, and no call is issued
  again.
\<close>

theorem emit_posts_and_notifies:
  assumes "mounted w"
    and "i \<in> set (inflight v)" and "i < length (requests v)" and "requests v ! i = PostEvent e"
  shows "requests (step (Intent (OnInteraction itemId interactionType ctx)) w) = requests w @
           [PostEvent \<lparr> user_id = currentUser (ui w), ev_item_id = itemId,
                        ev_type = interactionType,
                        dwell_seconds =
                          (if truthy (get_prop ctx (js ''view_duration''))
                           then get_prop ctx (js ''view_duration'') else JNum 0),
                        ev_context = ctx \<rparr>]
       \<and> inflight (step (Intent (OnInteraction itemId interactionType ctx)) w) =
           inflight w @ [length (requests w)]
       \<and> ui (step (Intent (OnInteraction itemId interactionType ctx)) w) = ui w
       \<and> ui (step (Settle i (Replied b)) v) = ui v
       \<and> requests (step (Settle i (Replied b)) v) = requests v
       \<and> nodes (step (Settle i (Replied b)) v) = nodes v @
           [\<lparr> classList =
                [js ''fixed'', js ''top-4'', js ''right-4'', js ''bg-green-500'', js ''text-white'',
                 js ''px-6'', js ''py-3'', js ''rounded-lg'', js ''shadow-lg'', js ''z-50'',
                 js ''transform'', js ''translate-x-full'', js ''transition-transform'',
                 js ''duration-300''],
              textContent = capitalize (ev_type e) @ js '' recorded! '' @ [55356, 57225] \<rparr>]
       \<and> body (step (Settle i (Replied b)) v) = body v @ [length (nodes v)]
       \<and> js ''bg-green-500'' \<in> set (classList (last (nodes (step (Settle i (Replied b)) v))))
       \<and> js ''bg-red-500'' \<notin> set (classList (last (nodes (step (Settle i (Replied b)) v))))
       \<and> ui (step (Settle i Failed) v) = ui v
       \<and> requests (step (Settle i Failed) v) = requests v
       \<and> nodes (step (Settle i Failed) v) = nodes v @
           [\<lparr> classList =
                [js ''fixed'', js ''top-4'', js ''right-4'', js ''bg-red-500'', js ''text-white'',
                 js ''px-6'', js ''py-3'', js ''rounded-lg'', js ''shadow-lg'', js ''z-50'',
                 js ''transform'', js ''translate-x-full'', js ''transition-transform'',
                 js ''duration-300''],
              textContent = js ''Error logging interaction'' \<rparr>]
       \<and> body (step (Settle i Failed) v) = body v @ [length (nodes v)]
       \<and> js ''bg-red-500'' \<in> set (classList (last (nodes (step (Settle i Failed) v))))
       \<and> js ''bg-green-500'' \<notin> set (classList (last (nodes (step (Settle i Failed) v))))"
proof -
  have a: "dispatch (OnInteraction itemId interactionType ctx) w =
             issue (PostEvent \<lparr> user_id = currentUser (ui w), ev_item_id = itemId,
                        ev_type = interactionType,
                        dwell_seconds =
                          (if truthy (get_prop ctx (js ''view_duration''))
                           then get_prop ctx (js ''view_duration'') else JNum 0),
                        ev_context = ctx \<rparr>) w"
    using assms(1) by (simp add: dispatch_def logInteraction_def Let_def rerender_def)
  have n: "js ''error'' \<noteq> js ''success''" by (simp add: js_def)
  have g: "notification_element m (js ''success'') =
             \<lparr> classList =
                [js ''fixed'', js ''top-4'', js ''right-4'', js ''bg-green-500'', js ''text-white'',
                 js ''px-6'', js ''py-3'', js ''rounded-lg'', js ''shadow-lg'', js ''z-50'',
                 js ''transform'', js ''translate-x-full'', js ''transition-transform'',
                 js ''duration-300''],
               textContent = m \<rparr>" for m
    by (simp add: notification_element_def)
  have r: "notification_element m (js ''error'') =
             \<lparr> classList =
                [js ''fixed'', js ''top-4'', js ''right-4'', js ''bg-red-500'', js ''text-white'',
                 js ''px-6'', js ''py-3'', js ''rounded-lg'', js ''shadow-lg'', js ''z-50'',
                 js ''transform'', js ''translate-x-full'', js ''transition-transform'',
                 js ''duration-300''],
               textContent = m \<rparr>" for m
    using n by (simp add: notification_element_def)
  have k: "js ''bg-red-500'' \<notin> set (classList (notification_element m (js ''success'')))"
    "js ''bg-green-500'' \<notin> set (classList (notification_element m (js ''error'')))" for m
    unfolding g r by (simp_all add: js_def)
  have s: "settle i out v = resume (PostEvent e) out (v\<lparr>inflight := removeAll i (inflight v)\<rparr>)"
    for out using assms(2-4) by (simp add: settle_inflight)
  have p: "nodes (settle i (Replied b) v) = nodes v @
             [notification_element
                (capitalize (ev_type e) @ js '' recorded! '' @ [55356, 57225]) (js ''success'')]"
    "nodes (settle i Failed v) = nodes v @
             [notification_element (js ''Error logging interaction'') (js ''error'')]"
    by (simp_all add: s resume_PostEvent_page)
  have q: "js ''bg-green-500'' \<in> set (classList (last (nodes (settle i (Replied b) v))))"
    "js ''bg-red-500'' \<notin> set (classList (last (nodes (settle i (Replied b) v))))"
    "js ''bg-red-500'' \<in> set (classList (last (nodes (settle i Failed v))))"
    "js ''bg-green-500'' \<notin> set (classList (last (nodes (settle i Failed v))))"
    using k by (simp_all add: p) (simp_all add: g r)
  have t: "ui (settle i out v) = ui v" "body (settle i out v) = body v @ [length (nodes v)]" for out
    by (simp_all add: s resume_PostEvent_page)
  show ?thesis
    using q by (simp add: a t) (simp add: p g r)
qed


theorem emit_posts_and_notifies_witness:
  "(let ctx = [(js ''source'', JStr (js ''quick_action'')), (js ''action'', JStr (js ''view'')),
      (js ''view_duration'', JNum 42)];
        v = step (Intent (OnInteraction (js ''i1'') (js ''view'') ctx)) mounted_world
    in mounted mounted_world
       \<and> requests v ! 3 =
           PostEvent \<lparr> user_id = js ''demo_user_1'', ev_item_id = js ''i1'', ev_type = js ''view'',
                        dwell_seconds = JNum 42, ev_context = ctx \<rparr>
       \<and> 3 \<in> set (inflight v)
       \<and> ui (step (Settle 3 (Replied None)) v) = ui mounted_world
       \<and> body (step (Settle 3 (Replied None)) v) = [0]
       \<and> nodes (step (Settle 3 (Replied None)) v) =
           [\<lparr> classList =
             [js ''fixed'', js ''top-4'', js ''right-4'', js ''bg-green-500'', js ''text-white'',
              js ''px-6'', js ''py-3'', js ''rounded-lg'', js ''shadow-lg'', js ''z-50'',
              js ''transform'', js ''translate-x-full'', js ''transition-transform'',
              js ''duration-300''],
              textContent = js ''View recorded! '' @ [55356, 57225] \<rparr>]
       \<and> ui (step (Settle 3 Failed) v) = ui mounted_world
       \<and> body (step (Settle 3 Failed) v) = [0]
       \<and> nodes (step (Settle 3 Failed) v) =
           [\<lparr> classList =
             [js ''fixed'', js ''top-4'', js ''right-4'', js ''bg-red-500'', js ''text-white'',
              js ''px-6'', js ''py-3'', js ''rounded-lg'', js ''shadow-lg'', js ''z-50'',
              js ''transform'', js ''translate-x-full'', js ''transition-transform'',
              js ''duration-300''],
              textContent = js ''Error logging interaction'' \<rparr>])"
proof -
  let ?ctx = "[(js ''source'', JStr (js ''quick_action'')), (js ''action'', JStr (js ''view'')),
      (js ''view_duration'', JNum 42)]"
  let ?v = "dispatch (OnInteraction (js ''i1'') (js ''view'') ?ctx) mounted_world"
  let ?e = "\<lparr> user_id = js ''demo_user_1'', ev_item_id = js ''i1'', ev_type = js ''view'',
              dwell_seconds = JNum 42, ev_context = ?ctx \<rparr>"
  have m: "mounted mounted_world" by (simp add: mounted_world_simps)
  have d: "get_prop ?ctx (js ''view_duration'') = JNum 42"
    by (simp add: get_prop_def js_def)
  have v: "requests ?v = requests mounted_world @ [PostEvent ?e]"
    "inflight ?v = [0, 1, 2, 3]" "ui ?v = ui mounted_world" "nodes ?v = []" "body ?v = []"
    using d by (simp_all add: eval_defs)
  have i: "3 \<in> set (inflight ?v)" and l: "3 < length (requests ?v)"
    and r: "requests ?v ! 3 = PostEvent ?e"
    by (simp_all add: v mounted_world_simps)
  have t: "capitalize (js ''view'') @ js '' recorded! '' @ [55356, 57225]
           = js ''View recorded! '' @ [55356, 57225]"
    unfolding upper_ascii_words by (simp add: js_def)
  show ?thesis
    unfolding Let_def
    using emit_posts_and_notifies [OF m i l r, of "js ''i1''" "js ''view''" ?ctx None] m i r v t
    by simp
qed

section \<open>The lifetime of a notification\<close>

text \<open>
  C9. Time is the logical clock of the model: one \<open>Tick\<close> is one millisecond, and a
  timer fires at the tick it is due. In any state the view can reach, the element that
  \<open>showNotification\<close> creates has a fresh name (it is no child of the page body before)
  and is a child of the page body at once. Whatever events follow, it is a child of the
  page body exactly while fewer than 3300 ticks have gone by: 100 ms of entrance, during
  which it is still off the screen, 2900 ms on the screen, and 300 ms of exit animation,
  off the screen again; from tick 3300 on it is gone, with no dismissal by the user.
  The same holds for the notification pushed when a posted interaction event settles.
\<close>

theorem notification_lifetime:
  "length (nodes (run es0 mounted_world)) \<notin> set (body (run es0 mounted_world))
   \<and> (length (nodes (run es0 mounted_world))
        \<in> set (body (run es (showNotification m k (run es0 mounted_world)))))
       = (count_list es Tick < 3300)
   \<and> offscreen (nodes (run es (showNotification m k (run es0 mounted_world)))
        ! length (nodes (run es0 mounted_world)))
       = (count_list es Tick < 100 \<or> 3000 \<le> count_list es Tick)
   \<and> (i \<in> set (inflight (run es0 mounted_world)) \<and> i < length (requests (run es0 mounted_world))
        \<and> kind_of (requests (run es0 mounted_world) ! i) = Telemetry
      \<longrightarrow> (length (nodes (run es0 mounted_world))
            \<in> set (body (run (es0 @ Settle i out # es) mounted_world)))
          = (count_list es Tick < 3300)
        \<and> offscreen (nodes (run (es0 @ Settle i out # es) mounted_world)
            ! length (nodes (run es0 mounted_world)))
          = (count_list es Tick < 100 \<or> 3000 \<le> count_list es Tick))"
proof -
  let ?w = "run es0 mounted_world"
  have c: "consistent ?w"
    by (simp add: consistent_run consistent_mounted_world)
  have a: "length (nodes ?w) \<notin> set (body ?w)"
    using fresh_node(1) [OF c] .
  have b: "(length (nodes ?w) \<in> set (body (run es (showNotification m k ?w))))
           = (count_list es Tick < 3300)"
    "offscreen (nodes (run es (showNotification m k ?w)) ! length (nodes ?w))
       = (count_list es Tick < 100 \<or> 3000 \<le> count_list es Tick)"
    using showing_present [OF showing_init [OF c, of m k], of es] by simp_all
  have d: "(length (nodes ?w) \<in> set (body (run (es0 @ Settle i out # es) mounted_world)))
           = (count_list es Tick < 3300)
         \<and> offscreen (nodes (run (es0 @ Settle i out # es) mounted_world) ! length (nodes ?w))
           = (count_list es Tick < 100 \<or> 3000 \<le> count_list es Tick)"
    if i: "i \<in> set (inflight ?w)" "i < length (requests ?w)"
      and k: "kind_of (requests ?w ! i) = Telemetry"
  proof -
    obtain e where e: "requests ?w ! i = PostEvent e"
      using k by (cases "requests ?w ! i") simp_all
    let ?v = "?w\<lparr>inflight := removeAll i (inflight ?w)\<rparr>"
    have s: "settle i o' ?w = resume (PostEvent e) o' ?v" for o'
      using i e by (simp add: settle_inflight)
    have cv: "consistent (console_log x ?v)" for x
      using c consistent_frame [of "console_log x ?v" ?w] by simp
    have "showing (length (nodes ?w)) (now ?w) (settle i out ?w)"
    proof (cases out)
      case Failed
      then show ?thesis
        using showing_init [OF cv, of "js ''Error logging interaction:''"] by (simp add: s Let_def)
    next
      case (Replied b)
      then show ?thesis
        using showing_init [OF cv,
            of "js ''Logged '' @ ev_type e @ js '' interaction for item '' @ ev_item_id e"]
        by (simp add: s Let_def)
    qed
    from showing_present [OF this, of es] show ?thesis by simp
  qed
  from a b d show ?thesis by blast
qed

theorem notification_lifetime_witness:
  "3 \<in> set (inflight (run [Intent (OnInteraction (js ''i1'') (js ''like'') [])] mounted_world))
   \<and> kind_of (requests (run [Intent (OnInteraction (js ''i1'') (js ''like'') [])] mounted_world) ! 3)
       = Telemetry
   \<and> 0 \<in> set (body (run ([Intent (OnInteraction (js ''i1'') (js ''like'') [])]
                   @ Settle 3 Failed # replicate 3299 Tick) mounted_world))
   \<and> 0 \<notin> set (body (run ([Intent (OnInteraction (js ''i1'') (js ''like'') [])]
                   @ Settle 3 Failed # replicate 3300 Tick) mounted_world))"
proof -
  let ?es0 = "[Intent (OnInteraction (js ''i1'') (js ''like'') [])]"
  let ?w = "run ?es0 mounted_world"
  have h: "3 \<in> set (inflight ?w)" "3 < length (requests ?w)"
    "kind_of (requests ?w ! 3) = Telemetry" "length (nodes ?w) = 0"
    by (simp_all add: eval_defs)
  show ?thesis
    using notification_lifetime [of ?es0 "replicate 3299 Tick" "[]" "[]" 3 Failed]
      notification_lifetime [of ?es0 "replicate 3300 Tick" "[]" "[]" 3 Failed] h
    by simp
qed

end
